theory Spec2Isabelle
  imports Main
begin

section \<open>Python values, exceptions and the world around backup.py\<close>

text \<open>
  A value as \<^verbatim>\<open>json.load\<close> returns it. An object is the list of its members in the order of
  the file; \<open>dict_get\<close> and \<open>dict_keys\<close> read that list as the Python dict built from it
  (for a repeated key the last value, at the position of the first occurrence). The value of
  a number is never inspected by the program.
\<close>

datatype json =
    JNull
  | JBool bool
  | JNum int
  | JStr string
  | JList "json list"
  | JObj "(string \<times> json) list"

text \<open>
  Exceptions. \<open>sys.exit(n)\<close> raises \<open>SystemExit n\<close>; \<open>AssertionError l\<close> carries the line
  of the failing \<^verbatim>\<open>assert\<close> statement of backup.py (108, 160 or 206).
\<close>

datatype exn =
    SystemExit nat
  | AssertionError nat
  | KeyError string
  | AttributeError
  | TypeError
  | IndexError
  | ValueError
  | EOFError
  | OSError
  | CalledProcessError
  | JSONDecodeError

text \<open>The exit status of the interpreter: an uncaught exception other than SystemExit gives 1.\<close>

fun exit_status :: "exn + 'a \<Rightarrow> nat" where
  "exit_status (Inr _) = 0"
| "exit_status (Inl (SystemExit n)) = n"
| "exit_status (Inl _) = 1"

definition dict_get :: "(string \<times> json) list \<Rightarrow> string \<Rightarrow> json option" where
  "dict_get kvs k = map_of (rev kvs) k"

definition dict_keys :: "(string \<times> json) list \<Rightarrow> string list" where
  "dict_keys kvs = rev (remdups (rev (map fst kvs)))"

text \<open>What the program does to the outside, in order.\<close>

datatype event =
    Print string
  | Input string
  | Makedirs string
  | Subprocess "string list"

record perms =
  r_ok :: bool
  w_ok :: bool

datatype proc_result = NotLaunched | Exited int string

datatype load_result = NoFile | NotJSON | Parsed json

text \<open>
  The environment the program cannot influence: what \<^verbatim>\<open>json.load\<close> gives for a file name,
  what the \<open>k\<close>-th subprocess started by the run does when given its argument vector (it does
  not start, or it exits with a status and a decoded standard output), with which permissions
  \<^verbatim>\<open>os.makedirs\<close> creates a directory (\<open>None\<close>: it raises), and Python's \<^verbatim>\<open>str()\<close> of a
  value that is not a string.
\<close>

record env =
  json_load :: "string \<Rightarrow> load_result"
  run_proc :: "nat \<Rightarrow> string list \<Rightarrow> proc_result"
  makedirs_perms :: "string \<Rightarrow> perms option"
  str_of :: "json \<Rightarrow> string"

text \<open>
  The state the program reads and writes: the class attributes \<open>Source.identifiers\<close> and
  \<open>Source.padding\<close>, the file system as \<^verbatim>\<open>os.access\<close> and \<^verbatim>\<open>os.path.exists\<close> see it
  (a path that does not exist has no permissions), the lines still to be read from standard
  input, the number of subprocesses started, and the events so far.
\<close>

record pystate =
  identifiers :: "string \<rightharpoonup> string"
  padding :: nat
  fs :: "string \<rightharpoonup> perms"
  stdin :: "string list"
  nproc :: nat
  trace :: "event list"

definition emit :: "event \<Rightarrow> pystate \<Rightarrow> pystate" where
  "emit e st = st\<lparr>trace := trace st @ [e]\<rparr>"

definition nl :: string where
  "nl = [CHR 0x0A]"

definition tab :: string where
  "tab = [CHR 0x09]"

text \<open>\<^verbatim>\<open>print(s)\<close> writes \<open>s\<close> and a newline; \<^verbatim>\<open>print(s, end="")\<close> writes \<open>s\<close>.\<close>

definition print :: "string \<Rightarrow> pystate \<Rightarrow> pystate" where
  "print s st = emit (Print (s @ nl)) st"

text \<open>
  A string with an embedded NUL character (JSON \<^verbatim>\<open>"\u0000"\<close>) cannot be handed to the
  operating system: \<^verbatim>\<open>os.access\<close>, \<^verbatim>\<open>os.makedirs\<close> and the \<^verbatim>\<open>subprocess\<close> functions
  raise ValueError for it before anything happens, and \<^verbatim>\<open>os.path.exists\<close> answers False.
  The characters of a \<open>string\<close> are the code points below 256, all of which the file system
  encoding takes; NUL is the one character the operating system refuses.
\<close>

definition has_nul :: "string \<Rightarrow> bool" where
  "has_nul s = (CHR 0x00 \<in> set s)"

definition os_access_R :: "pystate \<Rightarrow> string \<Rightarrow> exn + bool" where
  "os_access_R st p =
     (if has_nul p then Inl ValueError
      else Inr (case fs st p of None \<Rightarrow> False | Some pm \<Rightarrow> r_ok pm))"

definition os_access_W :: "pystate \<Rightarrow> string \<Rightarrow> exn + bool" where
  "os_access_W st p =
     (if has_nul p then Inl ValueError
      else Inr (case fs st p of None \<Rightarrow> False | Some pm \<Rightarrow> w_ok pm))"

definition os_path_exists :: "pystate \<Rightarrow> string \<Rightarrow> bool" where
  "os_path_exists st p = (\<not> has_nul p \<and> fs st p \<noteq> None)"

text \<open>\<^verbatim>\<open>subprocess.check_output(args).decode("utf-8")\<close> and \<^verbatim>\<open>subprocess.call(args)\<close>.\<close>

definition check_output :: "env \<Rightarrow> string list \<Rightarrow> pystate \<Rightarrow> (exn + string) \<times> pystate" where
  "check_output ev args st =
     (if list_ex has_nul args then (Inl ValueError, st)
      else let st1 = emit (Subprocess args) (st\<lparr>nproc := Suc (nproc st)\<rparr>)
           in case run_proc ev (nproc st) args of
                NotLaunched \<Rightarrow> (Inl OSError, st1)
              | Exited c out \<Rightarrow> if c \<noteq> 0 then (Inl CalledProcessError, st1) else (Inr out, st1))"

definition subprocess_call :: "env \<Rightarrow> string list \<Rightarrow> pystate \<Rightarrow> (exn + int) \<times> pystate" where
  "subprocess_call ev args st =
     (if list_ex has_nul args then (Inl ValueError, st)
      else let st1 = emit (Subprocess args) (st\<lparr>nproc := Suc (nproc st)\<rparr>)
           in case run_proc ev (nproc st) args of
                NotLaunched \<Rightarrow> (Inl OSError, st1)
              | Exited c out \<Rightarrow> (Inr c, st1))"

subsection \<open>String operations of the standard library\<close>

text \<open>A character is a code point below 256; these are the ones \<^verbatim>\<open>str.isspace\<close> accepts.\<close>

definition py_isspace :: "char \<Rightarrow> bool" where
  "py_isspace c = (c \<in> set [CHR 0x09, CHR 0x0A, CHR 0x0B, CHR 0x0C, CHR 0x0D, CHR 0x1C,
                             CHR 0x1D, CHR 0x1E, CHR 0x1F, CHR 0x20, CHR 0x85, CHR 0xA0])"

definition strip :: "string \<Rightarrow> string" where
  "strip s = rev (dropWhile py_isspace (rev (dropWhile py_isspace s)))"

text \<open>\<^verbatim>\<open>s.split()[0]\<close>: the first whitespace-delimited token, IndexError when there is none.\<close>

definition split_first :: "string \<Rightarrow> exn + string" where
  "split_first s =
     (let t = takeWhile (\<lambda>c. \<not> py_isspace c) (dropWhile py_isspace s)
      in if t = [] then Inl IndexError else Inr t)"

text \<open>\<^verbatim>\<open>os.path.basename\<close>: what follows the last slash.\<close>

definition basename :: "string \<Rightarrow> string" where
  "basename p = rev (takeWhile (\<lambda>c. c \<noteq> CHR ''/'') (rev p))"

text \<open>\<^verbatim>\<open>os.path.join(a, b)\<close>.\<close>

definition path_join :: "string \<Rightarrow> string \<Rightarrow> string" where
  "path_join a b =
     (if b \<noteq> [] \<and> hd b = CHR ''/'' then b
      else if a = [] \<or> last a = CHR ''/'' then a @ b
      else a @ ''/'' @ b)"

text \<open>\<^verbatim>\<open>",".join(xs)\<close>.\<close>

fun comma_join :: "string list \<Rightarrow> string" where
  "comma_join [] = []"
| "comma_join [x] = x"
| "comma_join (x # y # ys) = x @ '','' @ comma_join (y # ys)"

text \<open>The format specifications \<^verbatim>\<open>{:<pad}\<close> and \<^verbatim>\<open>{:>pad}\<close> for a width that is not negative.\<close>

definition ljust :: "string \<Rightarrow> nat \<Rightarrow> string" where
  "ljust s pad = s @ replicate (pad - length s) CHR '' ''"

definition rjust :: "string \<Rightarrow> nat \<Rightarrow> string" where
  "rjust s pad = replicate (pad - length s) CHR '' '' @ s"

section \<open>Color\<close>

definition colorize :: "string \<Rightarrow> string \<Rightarrow> string" where
  "colorize code s = CHR 0x1B # code @ s @ CHR 0x1B # ''[0m''"

definition red :: "string \<Rightarrow> string" where
  "red s = colorize ''[91;1m'' s"

definition green :: "string \<Rightarrow> string" where
  "green s = colorize ''[92;1m'' s"

definition yellow :: "string \<Rightarrow> string" where
  "yellow s = colorize ''[93;1m'' s"

definition blue :: "string \<Rightarrow> string" where
  "blue s = colorize ''[94;1m'' s"

definition purple :: "string \<Rightarrow> string" where
  "purple s = colorize ''[95;1m'' s"

definition cyan :: "string \<Rightarrow> string" where
  "cyan s = colorize ''[96;1m'' s"

section \<open>err, trim_trailing_slash, confirm\<close>

definition err :: "string \<Rightarrow> pystate \<Rightarrow> (exn + 'a) \<times> pystate" where
  "err s st = (Inl (SystemExit 1), print (red ''Error:'' @ '' '' @ s) st)"

definition trim_trailing_slash :: "string \<Rightarrow> string" where
  "trim_trailing_slash s = (if s \<noteq> [] \<and> last s = CHR ''/'' then butlast s else s)"

text \<open>\<^verbatim>\<open>input(prompt)\<close> shows the prompt and takes one line; at end of input it raises.\<close>

definition confirm :: "string \<Rightarrow> bool \<Rightarrow> pystate \<Rightarrow> (exn + unit) \<times> pystate" where
  "confirm s skipped st =
     (if skipped then (Inr (), st)
      else let st1 = emit (Input (s @ '' [y/N] '')) st
           in case stdin st1 of
                [] \<Rightarrow> (Inl EOFError, st1)
              | ans # rest \<Rightarrow>
                  let st2 = st1\<lparr>stdin := rest\<rparr>
                  in if ans \<noteq> ''y''
                     then (Inl (SystemExit 3), print ''Operation aborted.'' st2)
                     else (Inr (), st2))"

section \<open>Source\<close>

text \<open>
  An instance of Source: the four attributes \<open>__init__\<close> sets, and \<open>attrs\<close>, the attributes
  created later, by the name under which the instance stores them. Inside the class body
  the identifier \<open>self.__size\<close> is the attribute \<open>_Source__size\<close> (private name mangling);
  the string literal passed to \<^verbatim>\<open>hasattr\<close> is taken as it is written.
\<close>

record source =
  excludes :: "json list"
  path :: string
  idn :: string
  unique :: bool
  attrs :: "string \<rightharpoonup> string"

definition Source_readable :: "pystate \<Rightarrow> source \<Rightarrow> exn + bool" where
  "Source_readable st src = os_access_R st (path src)"

definition unique_idn :: "source \<Rightarrow> bool" where
  "unique_idn src = unique src"

text \<open>The list \<open>errs\<close> that \<open>Source.err\<close> accumulates, and the method itself.\<close>

definition Source_errs :: "pystate \<Rightarrow> source \<Rightarrow> exn + string list" where
  "Source_errs st src =
     (case Source_readable st src of
        Inl e \<Rightarrow> Inl e
      | Inr rd \<Rightarrow>
         (let errs = (if \<not> rd then [''not readable''] else [])
          in if \<not> unique_idn src
             then (case identifiers st (idn src) of
                     None \<Rightarrow> Inl (KeyError (idn src))
                   | Some first \<Rightarrow> Inr (errs @ [idn src @ '' conflicts with '' @ first]))
             else Inr errs))"

definition Source_err :: "pystate \<Rightarrow> source \<Rightarrow> exn + string" where
  "Source_err st src = (case Source_errs st src of Inl e \<Rightarrow> Inl e | Inr errs \<Rightarrow> Inr (comma_join errs))"

text \<open>One \<open>--exclude\<close> flag per pattern; \<open>prefix + "/" + excl\<close> raises for a pattern that is no string.\<close>

fun exclude_args :: "string \<Rightarrow> json list \<Rightarrow> exn + string list" where
  "exclude_args pre [] = Inr []"
| "exclude_args pre (JStr excl # es) =
     (case exclude_args pre es of
        Inl e \<Rightarrow> Inl e
      | Inr r \<Rightarrow> Inr (''--exclude'' # (pre @ ''/'' @ excl) # r))"
| "exclude_args pre (_ # es) = Inl TypeError"

definition Source_size :: "env \<Rightarrow> source \<Rightarrow> pystate \<Rightarrow> (exn + string) \<times> source \<times> pystate" where
  "Source_size ev src st =
     (if attrs src ''__size'' = None
      then (case exclude_args (path src) (excludes src) of
              Inl e \<Rightarrow> (Inl e, src, st)
            | Inr xs \<Rightarrow>
               (case check_output ev ([''du'', ''-sh'', path src] @ xs) st of
                  (Inl e, st1) \<Rightarrow> (Inl e, src, st1)
                | (Inr tmp, st1) \<Rightarrow>
                   (case split_first tmp of
                      Inl e \<Rightarrow> (Inl e, src, st1)
                    | Inr tok \<Rightarrow> (Inr tok, src\<lparr>attrs := (attrs src)(''_Source__size'' \<mapsto> tok)\<rparr>, st1))))
      else (case attrs src ''_Source__size'' of
              None \<Rightarrow> (Inl AttributeError, src, st)
            | Some v \<Rightarrow> (Inr v, src, st)))"

definition update_padding :: "source \<Rightarrow> pystate \<Rightarrow> pystate" where
  "update_padding src st =
     (let pad = (3 * length (path src)) div 2
      in if pad > padding st then st\<lparr>padding := pad\<rparr> else st)"

text \<open>The lines \<open>show\<close> writes for the exclusion patterns.\<close>

definition show_excludes :: "env \<Rightarrow> json list \<Rightarrow> string" where
  "show_excludes ev es =
     (if length es > 0
      then tab @ ''excluding'' @ nl @
           concat (map (\<lambda>excl. tab @ tab @ (case excl of JStr s \<Rightarrow> s | _ \<Rightarrow> str_of ev excl) @ nl) es)
      else [])"

text \<open>\<open>show(self, size=True)\<close>; the instance changes when \<open>size\<close> stores its result.\<close>

definition Source_show :: "env \<Rightarrow> bool \<Rightarrow> source \<Rightarrow> pystate \<Rightarrow> (exn + source) \<times> pystate" where
  "Source_show ev size_flag src st =
     (let col = yellow (ljust (path src) (padding st))
      in case Source_err st src of
           Inl e \<Rightarrow> (Inl e, st)
         | Inr er \<Rightarrow>
            if er \<noteq> []
            then (Inr src, emit (Print (col @ red er @ nl @ show_excludes ev (excludes src))) st)
            else if size_flag
            then (case Source_size ev src st of
                    (Inl e, src1, st1) \<Rightarrow> (Inl e, st1)
                  | (Inr sz, src1, st1) \<Rightarrow>
                      (Inr src1, emit (Print (col @ green ''ok'' @ rjust sz (padding st1) @ nl @
                                              show_excludes ev (excludes src1))) st1))
            else (Inr src, emit (Print (col @ green ''ok'' @ nl @ show_excludes ev (excludes src))) st))"

definition exclude :: "source \<Rightarrow> json \<Rightarrow> source" where
  "exclude src s = src\<lparr>excludes := excludes src @ [s]\<rparr>"

text \<open>\<open>Source(s)\<close>: \<open>s.endswith\<close> exists for a string only.\<close>

definition Source_init :: "json \<Rightarrow> pystate \<Rightarrow> (exn + source) \<times> pystate" where
  "Source_init s st =
     (case s of
        JStr p \<Rightarrow>
          (let pth = trim_trailing_slash p;
               self = \<lparr>excludes = [], path = pth, idn = basename pth, unique = False, attrs = Map.empty\<rparr>;
               st1 = update_padding self st
           in if identifiers st1 (idn self) = None
              then (Inr (self\<lparr>unique := True\<rparr>),
                    st1\<lparr>identifiers := (identifiers st1)(idn self \<mapsto> p)\<rparr>)
              else (Inr self, st1))
      | _ \<Rightarrow> (Inl AttributeError, st))"

section \<open>Target\<close>

record target =
  tpath :: string

definition Target_writable :: "pystate \<Rightarrow> target \<Rightarrow> exn + bool" where
  "Target_writable st tgt = os_access_W st (tpath tgt)"

definition Target_exists :: "pystate \<Rightarrow> target \<Rightarrow> bool" where
  "Target_exists st tgt = os_path_exists st (tpath tgt)"

text \<open>\<open>self.exists() and self.writable()\<close>: writability is asked only of a target that exists.\<close>

definition sanity :: "pystate \<Rightarrow> target \<Rightarrow> exn + bool" where
  "sanity st tgt = (if Target_exists st tgt then Target_writable st tgt else Inr False)"

text \<open>
  \<^verbatim>\<open>os.makedirs\<close> inside \<^verbatim>\<open>try\<close>: any exception of it (the path exists, has a NUL
  character, or the directory cannot be made) ends in \<open>err\<close>.
\<close>

definition create :: "env \<Rightarrow> target \<Rightarrow> pystate \<Rightarrow> (exn + unit) \<times> pystate" where
  "create ev tgt st =
     (if Target_exists st tgt then (Inl (AssertionError 108), st)
      else case confirm (''Target '' @ cyan (tpath tgt) @ '' does not exist - create?'') False st of
             (Inl e, st1) \<Rightarrow> (Inl e, st1)
           | (Inr u, st1) \<Rightarrow>
               (let st2 = emit (Makedirs (tpath tgt)) st1
                in case (if has_nul (tpath tgt) \<or> fs st2 (tpath tgt) \<noteq> None then None
                         else makedirs_perms ev (tpath tgt)) of
                     None \<Rightarrow> err (''could not create '' @ cyan (tpath tgt)) st2
                   | Some pm \<Rightarrow> (Inr (), st2\<lparr>fs := (fs st2)(tpath tgt \<mapsto> pm)\<rparr>)))"

text \<open>The width \<open>Source.padding-4\<close> may be negative, which \<open>format\<close> refuses for a string.\<close>

definition showSource :: "env \<Rightarrow> target \<Rightarrow> source \<Rightarrow> pystate \<Rightarrow> (exn + unit) \<times> pystate" where
  "showSource ev tgt src st =
     (let location = path_join (tpath tgt) (idn src);
          col = blue (ljust location (padding st))
      in if \<not> os_path_exists st location
         then (Inr (), print (col @ green ''to be created'') st)
         else (case check_output ev [''du'', ''-sh'', location] st of
                 (Inl e, st1) \<Rightarrow> (Inl e, st1)
               | (Inr out, st1) \<Rightarrow>
                  (case split_first out of
                     Inl e \<Rightarrow> (Inl e, st1)
                   | Inr sz \<Rightarrow>
                      if padding st1 < 4 then (Inl ValueError, st1)
                      else (Inr (), print (col @ purple ''exists'' @ rjust sz (padding st1 - 4)) st1))))"

definition rsync_line :: "target \<Rightarrow> source \<Rightarrow> string" where
  "rsync_line tgt src =
     purple ''backup.py'' @ '': Syncing '' @ yellow (path src) @ '' => '' @
     blue (path_join (tpath tgt) (idn src))"

definition rsync :: "env \<Rightarrow> target \<Rightarrow> source \<Rightarrow> pystate \<Rightarrow> (exn + unit) \<times> pystate" where
  "rsync ev tgt src st =
     (let st1 = print (rsync_line tgt src) st
      in case exclude_args (idn src) (excludes src) of
           Inl e \<Rightarrow> (Inl e, st1)
         | Inr xs \<Rightarrow>
            (case subprocess_call ev
                    ([''rsync'', ''-i'', ''--info=progress2'', ''-a'', ''--links'', ''--delete'',
                      ''--delete-excluded''] @ xs @ [path src, tpath tgt]) st1 of
               (Inl e, st2) \<Rightarrow> (Inl e, st2)
             | (Inr c, st2) \<Rightarrow> (Inr (), st2)))"

definition Target_init :: "string \<Rightarrow> target" where
  "Target_init s = \<lparr>tpath = strip s\<rparr>"

section \<open>Reading the configuration\<close>

text \<open>The three helpers return Python values; a missing key raises KeyError.\<close>

definition makelist :: "json \<Rightarrow> json" where
  "makelist l = (case l of JStr s \<Rightarrow> JList [l] | _ \<Rightarrow> l)"

definition getpath :: "json \<Rightarrow> exn + json" where
  "getpath item =
     (case item of
        JObj kvs \<Rightarrow> (case dict_get kvs ''path'' of None \<Rightarrow> Inl (KeyError ''path'') | Some v \<Rightarrow> Inr v)
      | _ \<Rightarrow> Inr item)"

definition getexclude :: "json \<Rightarrow> exn + json" where
  "getexclude item =
     (case item of
        JObj kvs \<Rightarrow>
          (case dict_get kvs ''exclude'' of
             None \<Rightarrow> Inl (KeyError ''exclude'')
           | Some v \<Rightarrow> Inr (makelist v))
      | _ \<Rightarrow> Inr (JList []))"

text \<open>What a \<^verbatim>\<open>for\<close> loop runs over: the elements of a list, the keys of a dict, the
  characters of a string; the other values are not iterable.\<close>

definition py_iter :: "json \<Rightarrow> exn + json list" where
  "py_iter v =
     (case v of
        JList xs \<Rightarrow> Inr xs
      | JObj kvs \<Rightarrow> Inr (map JStr (dict_keys kvs))
      | JStr s \<Rightarrow> Inr (map (\<lambda>c. JStr [c]) s)
      | _ \<Rightarrow> Inl TypeError)"

text \<open>The body of the loop of \<open>readconfig\<close> for one entry of \<open>sources\<close>.\<close>

definition read_item :: "json \<Rightarrow> pystate \<Rightarrow> (exn + source) \<times> pystate" where
  "read_item item st =
     (case getpath item of
        Inl e \<Rightarrow> (Inl e, st)
      | Inr p \<Rightarrow>
         (case Source_init p st of
            (Inl e, st1) \<Rightarrow> (Inl e, st1)
          | (Inr src, st1) \<Rightarrow>
             (case getexclude item of
                Inl e \<Rightarrow> (Inl e, st1)
              | Inr ex \<Rightarrow>
                 (case py_iter ex of
                    Inl e \<Rightarrow> (Inl e, st1)
                  | Inr xs \<Rightarrow> (Inr (foldl exclude src xs), st1)))))"

fun read_items :: "json list \<Rightarrow> pystate \<Rightarrow> (exn + source list) \<times> pystate" where
  "read_items [] st = (Inr [], st)"
| "read_items (item # items) st =
     (case read_item item st of
        (Inl e, st1) \<Rightarrow> (Inl e, st1)
      | (Inr src, st1) \<Rightarrow>
         (case read_items items st1 of
            (Inl e, st2) \<Rightarrow> (Inl e, st2)
          | (Inr srcs, st2) \<Rightarrow> (Inr (src # srcs), st2)))"

definition readconfig :: "env \<Rightarrow> string \<Rightarrow> pystate \<Rightarrow> (exn + source list \<times> target) \<times> pystate" where
  "readconfig ev configfile st =
     (case json_load ev configfile of
        NoFile \<Rightarrow> (Inl OSError, st)
      | NotJSON \<Rightarrow> (Inl JSONDecodeError, st)
      | Parsed config \<Rightarrow>
         (case config of
            JObj kvs \<Rightarrow>
              if length (dict_keys kvs) \<noteq> 2 then (Inl (AssertionError 160), st)
              else (case dict_get kvs ''sources'' of
                      None \<Rightarrow> (Inl (KeyError ''sources''), st)
                    | Some (JList items) \<Rightarrow>
                       (case dict_get kvs ''target'' of
                          None \<Rightarrow> (Inl (KeyError ''target''), st)
                        | Some (JStr t) \<Rightarrow>
                           (case read_items items st of
                              (Inl e, st1) \<Rightarrow> (Inl e, st1)
                            | (Inr sources, st1) \<Rightarrow> (Inr (sources, Target_init t), st1))
                        | Some _ \<Rightarrow> (Inl (AssertionError 160), st))
                    | Some _ \<Rightarrow> (Inl (AssertionError 160), st))
          | _ \<Rightarrow> (Inl AttributeError, st)))"

section \<open>main\<close>

text \<open>What \<open>getargs\<close> returns: the normalised path of the configuration file and the flag.\<close>

record args =
  config :: string
  autoconfirm :: bool

text \<open>The four loops of \<open>main\<close> over the sources.\<close>

fun show_all :: "env \<Rightarrow> source list \<Rightarrow> pystate \<Rightarrow> (exn + source list) \<times> pystate" where
  "show_all ev [] st = (Inr [], st)"
| "show_all ev (src # srcs) st =
     (case Source_show ev True src st of
        (Inl e, st1) \<Rightarrow> (Inl e, st1)
      | (Inr src1, st1) \<Rightarrow>
         (case show_all ev srcs st1 of
            (Inl e, st2) \<Rightarrow> (Inl e, st2)
          | (Inr srcs1, st2) \<Rightarrow> (Inr (src1 # srcs1), st2)))"

fun check_all :: "source list \<Rightarrow> pystate \<Rightarrow> (exn + unit) \<times> pystate" where
  "check_all [] st = (Inr (), st)"
| "check_all (src # srcs) st =
     (case Source_err st src of
        Inl e \<Rightarrow> (Inl e, st)
      | Inr er \<Rightarrow>
         if er \<noteq> [] then err ''one or more sources failed sanity check'' st
         else check_all srcs st)"

fun showSource_all :: "env \<Rightarrow> target \<Rightarrow> source list \<Rightarrow> pystate \<Rightarrow> (exn + unit) \<times> pystate" where
  "showSource_all ev tgt [] st = (Inr (), st)"
| "showSource_all ev tgt (src # srcs) st =
     (case showSource ev tgt src st of
        (Inl e, st1) \<Rightarrow> (Inl e, st1)
      | (Inr u, st1) \<Rightarrow> showSource_all ev tgt srcs st1)"

fun rsync_all :: "env \<Rightarrow> target \<Rightarrow> source list \<Rightarrow> pystate \<Rightarrow> (exn + unit) \<times> pystate" where
  "rsync_all ev tgt [] st = (Inr (), st)"
| "rsync_all ev tgt (src # srcs) st =
     (case rsync ev tgt src st of
        (Inl e, st1) \<Rightarrow> (Inl e, st1)
      | (Inr u, st1) \<Rightarrow> rsync_all ev tgt srcs st1)"

text \<open>
  \<open>main\<close> from its first line to the final confirmation (lines 190 to 213); it hands the
  sources and the target to the loop that syncs. \<open>args\<close> is what \<open>getargs\<close> returned.
\<close>

definition main_to_confirm :: "env \<Rightarrow> args \<Rightarrow> pystate \<Rightarrow> (exn + source list \<times> target) \<times> pystate" where
  "main_to_confirm ev ar st =
     (case readconfig ev (config ar) st of
        (Inl e, st1) \<Rightarrow> (Inl e, st1)
      | (Inr (sources0, tgt), st1) \<Rightarrow>
     (case show_all ev sources0 st1 of
        (Inl e, st2) \<Rightarrow> (Inl e, st2)
      | (Inr sources, st2) \<Rightarrow>
     (case check_all sources st2 of
        (Inl e, st3) \<Rightarrow> (Inl e, st3)
      | (Inr u, st3) \<Rightarrow>
     (case (if \<not> Target_exists st3 tgt then create ev tgt st3 else (Inr (), st3)) of
        (Inl e, st4) \<Rightarrow> (Inl e, st4)
      | (Inr u, st4) \<Rightarrow>
     (case Target_writable st4 tgt of
        Inl e \<Rightarrow> (Inl e, st4)
      | Inr w \<Rightarrow>
     (case (if \<not> w then err ''target not writable'' st4 else (Inr (), st4)) of
        (Inl e, st5) \<Rightarrow> (Inl e, st5)
      | (Inr u, st5) \<Rightarrow>
     (case sanity st5 tgt of
        Inl e \<Rightarrow> (Inl e, st5)
      | Inr sane \<Rightarrow>
     (if \<not> sane then (Inl (AssertionError 206), st5)
      else
     (case showSource_all ev tgt sources (print (nl @ ''Locations to be synced:'') st5) of
        (Inl e, st6) \<Rightarrow> (Inl e, st6)
      | (Inr u, st6) \<Rightarrow>
     (case confirm ''Proceed?'' False st6 of
        (Inl e, st7) \<Rightarrow> (Inl e, st7)
      | (Inr u, st7) \<Rightarrow> (Inr (sources, tgt), st7)))))))))))"

definition main :: "env \<Rightarrow> args \<Rightarrow> pystate \<Rightarrow> (exn + unit) \<times> pystate" where
  "main ev ar st =
     (case main_to_confirm ev ar st of
        (Inl e, st1) \<Rightarrow> (Inl e, st1)
      | (Inr (sources, tgt), st1) \<Rightarrow>
         (case rsync_all ev tgt sources st1 of
            (Inl e, st2) \<Rightarrow> (Inl e, st2)
          | (Inr u, st2) \<Rightarrow> (Inr (), print (purple ''All done!'') st2)))"

text \<open>The state of a fresh process: the class attributes as the class body sets them.\<close>

definition fresh :: "(string \<rightharpoonup> perms) \<Rightarrow> string list \<Rightarrow> pystate" where
  "fresh f inp = \<lparr>identifiers = Map.empty, padding = 0, fs = f, stdin = inp, nproc = 0, trace = []\<rparr>"


section \<open>The schema of the specification, and concrete runs\<close>

text \<open>
  The configuration schema in the words of the specification: exactly the two top-level
  keys \<open>sources\<close>, a list, and \<open>target\<close>, a string.
\<close>

definition spec_two_key_schema :: "json \<Rightarrow> bool" where
  "spec_two_key_schema c =
     (case c of
        JObj kvs \<Rightarrow>
          set (dict_keys kvs) = {''sources'', ''target''} \<and>
          (case dict_get kvs ''sources'' of Some (JList items) \<Rightarrow> True | _ \<Rightarrow> False) \<and>
          (case dict_get kvs ''target'' of Some (JStr t) \<Rightarrow> True | _ \<Rightarrow> False)
      | _ \<Rightarrow> False)"

text \<open>
  Scenario A of the specification: one readable source, the target exists and is writable.
  The sizing tool reports 4.0K when it is first run and 8.0K afterwards.
\<close>

definition env_a :: env where
  "env_a = \<lparr>json_load = (\<lambda>f. Parsed (JObj [(''sources'', JList [JStr ''/data/photos'']),
                                            (''target'', JStr ''/backup'')])),
            run_proc = (\<lambda>k a. Exited 0 (if k = 0 then ''4.0K /data/photos'' else ''8.0K /data/photos'')),
            makedirs_perms = (\<lambda>p. None),
            str_of = (\<lambda>v. [])\<rparr>"

definition fs_a :: "string \<rightharpoonup> perms" where
  "fs_a = [''/data/photos'' \<mapsto> \<lparr>r_ok = True, w_ok = False\<rparr>,
           ''/backup'' \<mapsto> \<lparr>r_ok = True, w_ok = True\<rparr>]"

text \<open>The instance \<open>Source("/data/photos")\<close> of a fresh process.\<close>

definition photos :: source where
  "photos = \<lparr>excludes = [], path = ''/data/photos'', idn = ''photos'', unique = True,
             attrs = Map.empty\<rparr>"

text \<open>A configuration whose only source entry is an object without \<open>exclude\<close>.\<close>

definition env_noexclude :: env where
  "env_noexclude =
     env_a\<lparr>json_load := (\<lambda>f. Parsed (JObj [(''sources'', JList [JObj [(''path'', JStr ''/data/photos'')]]),
                                            (''target'', JStr ''/backup'')]))\<rparr>"







section \<open>Events, frames and the texts of the specification\<close>

text \<open>
  The kinds of events the claims speak of: creating the target directory, prompting for
  a confirmation, and running the mirroring tool.
\<close>

fun is_makedirs :: "event \<Rightarrow> bool" where
  "is_makedirs (Makedirs p) = True"
| "is_makedirs _ = False"

fun is_input :: "event \<Rightarrow> bool" where
  "is_input (Input p) = True"
| "is_input _ = False"

fun is_rsync :: "event \<Rightarrow> bool" where
  "is_rsync (Subprocess a) = (take 1 a = [''rsync''])"
| "is_rsync _ = False"

text \<open>The texts written to standard output, in order.\<close>

fun prints :: "event list \<Rightarrow> string list" where
  "prints [] = []"
| "prints (Print s # es) = s # prints es"
| "prints (_ # es) = prints es"

fun is_str :: "json \<Rightarrow> bool" where
  "is_str (JStr s) = True"
| "is_str _ = False"

text \<open>A pattern that can be handed to a subprocess: a string without NUL character.\<close>

fun plain_pat :: "json \<Rightarrow> bool" where
  "plain_pat (JStr s) = (\<not> has_nul s)"
| "plain_pat _ = False"

text \<open>An event that is neither a directory creation, nor a prompt, nor a mirror invocation.\<close>

definition quiet :: "event \<Rightarrow> bool" where
  "quiet x = (\<not> is_makedirs x \<and> \<not> is_input x \<and> \<not> is_rsync x)"

text \<open>Two states that differ at most in the events and the number of subprocesses.\<close>

definition frame :: "pystate \<Rightarrow> pystate \<Rightarrow> bool" where
  "frame st st' = (identifiers st' = identifiers st \<and> padding st' = padding st \<and>
                   fs st' = fs st \<and> stdin st' = stdin st)"

text \<open>Two instances that differ at most in the attributes created after \<open>__init__\<close>.\<close>

definition same_source :: "source \<Rightarrow> source \<Rightarrow> bool" where
  "same_source s s' = (path s' = path s \<and> idn s' = idn s \<and> unique s' = unique s \<and>
                       excludes s' = excludes s)"

text \<open>
  The exceptions that \<open>show\<close> lets through: ValueError for a path or a pattern with a NUL
  character, and from the sizing TypeError for a pattern that is no string, OSError or
  CalledProcessError for a sizing tool that does not start or exits non-zero, IndexError for
  an output without a token.
\<close>

definition report_exn :: "exn \<Rightarrow> bool" where
  "report_exn e = (e \<in> {ValueError, TypeError, OSError, CalledProcessError, IndexError})"

text \<open>
  The readiness reasons in the words of the specification (4.2), read off the file system
  and the registry: "not readable" for a path that is absent or not readable, then the
  conflict with the registered path for an identifier that is not unique.
\<close>

definition spec_readable :: "pystate \<Rightarrow> source \<Rightarrow> bool" where
  "spec_readable st src = (case fs st (path src) of None \<Rightarrow> False | Some pm \<Rightarrow> r_ok pm)"

definition spec_reasons :: "pystate \<Rightarrow> source \<Rightarrow> string list" where
  "spec_reasons st src =
     (if spec_readable st src then [] else [''not readable'']) @
     (if unique src then []
      else [idn src @ '' conflicts with '' @
            (case identifiers st (idn src) of None \<Rightarrow> [] | Some first \<Rightarrow> first)])"

text \<open>
  The status report of a source in the words of the specification (4.4): the path column
  of the shared width, then the reasons in red, or a green "ok" and the right-aligned size;
  then one indented line per exclusion pattern when there are patterns.
\<close>

definition spec_pattern_lines :: "env \<Rightarrow> json list \<Rightarrow> string" where
  "spec_pattern_lines ev pats =
     (if pats = [] then []
      else [CHR 0x09] @ ''excluding'' @ [CHR 0x0A] @
           concat (map (\<lambda>x. [CHR 0x09, CHR 0x09] @ (case x of JStr s \<Rightarrow> s | _ \<Rightarrow> str_of ev x) @
                              [CHR 0x0A]) pats))"

definition spec_report :: "env \<Rightarrow> pystate \<Rightarrow> source \<Rightarrow> string \<Rightarrow> bool" where
  "spec_report ev st src rep =
     (if spec_reasons st src \<noteq> []
      then rep = yellow (ljust (path src) (padding st)) @ red (comma_join (spec_reasons st src)) @
                 [CHR 0x0A] @ spec_pattern_lines ev (excludes src)
      else \<exists>sz. sz \<noteq> [] \<and>
             rep = yellow (ljust (path src) (padding st)) @ green ''ok'' @ rjust sz (padding st) @
                   [CHR 0x0A] @ spec_pattern_lines ev (excludes src))"

text \<open>
  What \<open>show\<close> leaves of a source: the same source, with plain patterns if it was ready
  (its size was computed).
\<close>

definition shown :: "pystate \<Rightarrow> source \<Rightarrow> source \<Rightarrow> bool" where
  "shown st s s' = (same_source s s' \<and> attrs s' ''__size'' = None \<and>
                    (Source_err st s = Inr [] \<longrightarrow> list_all plain_pat (excludes s')))"



text \<open>
  A Source that stems from a configuration entry: its path is the entry's path without
  the trailing slash, its identifier the final component.
\<close>

definition from_entry :: "json \<Rightarrow> source \<Rightarrow> bool" where
  "from_entry item src =
     (\<exists>p. getpath item = Inr (JStr p) \<and> path src = trim_trailing_slash p \<and>
          idn src = basename (path src))"

text \<open>
  The argument vector of the mirroring tool in the words of the specification: the fixed
  flags, one exclusion flag per pattern rendered as identifier, slash, pattern, then the
  source path and the target root.
\<close>

definition spec_exclude_flags :: "string \<Rightarrow> json list \<Rightarrow> string list" where
  "spec_exclude_flags pre pats =
     concat (map (\<lambda>x. case x of JStr p \<Rightarrow> [''--exclude'', pre @ ''/'' @ p] | _ \<Rightarrow> []) pats)"

definition spec_rsync_argv :: "target \<Rightarrow> source \<Rightarrow> string list" where
  "spec_rsync_argv tgt src =
     [''rsync'', ''-i'', ''--info=progress2'', ''-a'', ''--links'', ''--delete'', ''--delete-excluded''] @
     spec_exclude_flags (idn src) (excludes src) @ [path src, tpath tgt]"

fun is_assertion :: "exn \<Rightarrow> bool" where
  "is_assertion (AssertionError n) = True"
| "is_assertion _ = False"

section \<open>Further concrete runs\<close>







text \<open>
  A run that reaches the sync phase: two readable sources, the second with two exclusion
  patterns; the sizing tool works, the mirroring tool exits with status 23 each time.
\<close>

definition env_sync :: env where
  "env_sync =
     \<lparr>json_load = (\<lambda>f. Parsed (JObj [(''sources'', JList [JStr ''/data/photos'',
                                        JObj [(''path'', JStr ''/data/docs/''),
                                              (''exclude'', JList [JStr ''tmp'', JStr ''cache''])]]),
                                     (''target'', JStr ''/backup'')])),
      run_proc = (\<lambda>k a. if take 1 a = [''du''] then Exited 0 ''4.0K total'' else Exited 23 []),
      makedirs_perms = (\<lambda>p. None),
      str_of = (\<lambda>v. [])\<rparr>"

definition fs_sync :: "string \<rightharpoonup> perms" where
  "fs_sync = [''/data/photos'' \<mapsto> \<lparr>r_ok = True, w_ok = False\<rparr>,
              ''/data/docs'' \<mapsto> \<lparr>r_ok = True, w_ok = False\<rparr>,
              ''/backup'' \<mapsto> \<lparr>r_ok = True, w_ok = True\<rparr>]"

definition args_sync :: args where
  "args_sync = \<lparr>config = ''/c.json'', autoconfirm = False\<rparr>"


section \<open>The confirmation gate\<close>

text \<open>
  C7: in interactive mode the gate reads one line and proceeds exactly when that line is
  \<open>y\<close>; any other line, the empty one included, ends the process with exit code 3,
  while \<open>err\<close> ends it with exit code 1.
\<close>

theorem confirm_interactive:
  "stdin st = ans # rest \<Longrightarrow>
     (fst (confirm s False st) = Inr () \<longleftrightarrow> ans = ''y'') \<and>
     (ans \<noteq> ''y'' \<longrightarrow> fst (confirm s False st) = Inl (SystemExit 3) \<and>
                       exit_status (fst (confirm s False st)) = 3) \<and>
     stdin (snd (confirm s False st)) = rest \<and>
     exit_status (fst (err m st2 :: (exn + unit) \<times> pystate)) = 1"
  by (simp add: confirm_def emit_def err_def print_def Let_def)

theorem confirm_interactive_witness:
  "stdin (fresh fs_a ['''']) = '''' # [] \<and>
   fst (confirm ''Proceed?'' False (fresh fs_a [''''])) = Inl (SystemExit 3) \<and>
   exit_status (fst (confirm ''Proceed?'' False (fresh fs_a ['''']))) = 3"
  using confirm_interactive[of "fresh fs_a ['''']" "''''" "[]" "''Proceed?''"]
  by (simp add: fresh_def)

text \<open>
  C1: with \<open>--autoconfirm\<close> given, the run of scenario A still prompts before the sync and,
  on the answer \<open>n\<close>, exits with code 3: \<open>main\<close> never hands the flag to \<open>confirm\<close>.
\<close>

theorem autoconfirm_still_prompts:
  "fst (main env_a \<lparr>config = ''/c.json'', autoconfirm = True\<rparr> (fresh fs_a [''n''])) =
     Inl (SystemExit 3) \<and>
   Input ''Proceed? [y/N] '' \<in>
     set (trace (snd (main env_a \<lparr>config = ''/c.json'', autoconfirm = True\<rparr> (fresh fs_a [''n'']))))"
  by code_simp

text \<open>The flag has no influence on any run.\<close>

lemma autoconfirm_ignored: "main ev (ar\<lparr>autoconfirm := b\<rparr>) st = main ev ar st"
  by (simp add: main_def main_to_confirm_def)

section \<open>Size computation\<close>

lemma photos_constructed:
  "fst (Source_init (JStr ''/data/photos'') (fresh fs_a [])) = Inr photos"
  by (simp add: Source_init_def update_padding_def Let_def fresh_def photos_def
                trim_trailing_slash_def basename_def)

text \<open>
  C2: calling \<open>size\<close> twice on one Source runs the sizing tool twice, and the two results
  differ when the tool's output changed in between: the value is stored as
  \<open>_Source__size\<close> while the test looks for \<open>__size\<close>.
\<close>

theorem size_runs_du_again:
  "(case Source_size env_a photos (fresh fs_a []) of
      (r1, s1, st1) \<Rightarrow> (case Source_size env_a s1 st1 of (r2, s2, st2) \<Rightarrow> (r1, r2, trace st2))) =
   (Inr ''4.0K'', Inr ''8.0K'',
    [Subprocess [''du'', ''-sh'', ''/data/photos''], Subprocess [''du'', ''-sh'', ''/data/photos'']])"
  by code_simp

text \<open>No call of \<open>size\<close> creates the attribute that the test of \<open>size\<close> looks for.\<close>

lemma size_never_cached:
  "attrs src ''__size'' = None \<Longrightarrow> Source_size ev src st = (r, src', st') \<Longrightarrow>
     attrs src' ''__size'' = None"
  by (auto simp: Source_size_def split: sum.splits prod.splits)

section \<open>The configuration schema\<close>

lemma dict_get_keys: "dict_get kvs k \<noteq> None \<longleftrightarrow> k \<in> set (dict_keys kvs)"
  by (simp add: dict_get_def dict_keys_def map_of_eq_None_iff)

lemma distinct_dict_keys: "distinct (dict_keys kvs)"
  by (simp add: dict_keys_def)

lemma two_keys:
  assumes "length xs = 2" "distinct xs" "a \<in> set xs" "b \<in> set xs" "a \<noteq> b"
  shows "set xs = {a, b}"
proof -
  from assms(1) obtain x y where xs: "xs = [x, y]"
    by (cases xs; cases "tl xs") auto
  with assms show ?thesis by auto
qed

lemma schema_of_checks:
  assumes "length (dict_keys kvs) = 2"
    and "dict_get kvs ''sources'' = Some (JList items)"
    and "dict_get kvs ''target'' = Some (JStr t)"
  shows "spec_two_key_schema (JObj kvs)"
proof -
  have "''sources'' \<in> set (dict_keys kvs)" "''target'' \<in> set (dict_keys kvs)"
    using assms(2,3) dict_get_keys[of kvs] by auto
  then have "set (dict_keys kvs) = {''sources'', ''target''}"
    using two_keys[OF assms(1) distinct_dict_keys] by simp
  then show ?thesis using assms(2,3) by (simp add: spec_two_key_schema_def)
qed

text \<open>
  C8: a parsed configuration document that does not have exactly the two keys \<open>sources\<close>
  (a list) and \<open>target\<close> (a string) makes \<open>readconfig\<close> raise, and the state at that
  moment is the state it started in: no Source was constructed, the registry is untouched.
\<close>

theorem schema_rejected_before_construction:
  assumes "json_load ev f = Parsed c" and "\<not> spec_two_key_schema c"
  shows "\<exists>e. readconfig ev f st = (Inl e, st)"
proof (cases c)
  case (JObj kvs)
  show ?thesis
  proof (cases "length (dict_keys kvs) = 2")
    case False
    then show ?thesis using assms(1) JObj by (simp add: readconfig_def)
  next
    case len: True
    show ?thesis
    proof (cases "dict_get kvs ''sources''")
      case None
      then show ?thesis using assms(1) JObj len by (simp add: readconfig_def)
    next
      case (Some v)
      note src = this
      show ?thesis
      proof (cases "\<exists>items. v = JList items")
        case False
        then show ?thesis using assms(1) JObj len src
          by (cases v) (simp_all add: readconfig_def)
      next
        case True
        then obtain items where v: "v = JList items" by blast
        show ?thesis
        proof (cases "dict_get kvs ''target''")
          case None
          then show ?thesis using assms(1) JObj len src v by (simp add: readconfig_def)
        next
          case (Some w)
          have "\<not> (\<exists>t. w = JStr t)"
            using schema_of_checks[OF len] src v Some assms(2) JObj by auto
          then show ?thesis using assms(1) JObj len src v Some
            by (cases w) (simp_all add: readconfig_def)
        qed
      qed
    qed
  qed
qed (use assms(1) in \<open>simp_all add: readconfig_def\<close>)

theorem schema_rejected_witness:
  "\<not> spec_two_key_schema (JObj [(''sources'', JList [JStr ''/data/photos''])]) \<and>
   (\<exists>e. readconfig (env_a\<lparr>json_load := (\<lambda>f. Parsed (JObj [(''sources'', JList [JStr ''/data/photos''])]))\<rparr>)
          ''/c.json'' (fresh fs_a []) = (Inl e, fresh fs_a []))"
proof -
  have h: "\<not> spec_two_key_schema (JObj [(''sources'', JList [JStr ''/data/photos''])])"
    by (simp add: spec_two_key_schema_def dict_keys_def)
  show ?thesis
    using h schema_rejected_before_construction[OF _ h, of
        "env_a\<lparr>json_load := (\<lambda>f. Parsed (JObj [(''sources'', JList [JStr ''/data/photos''])]))\<rparr>"
        "''/c.json''" "fresh fs_a []"]
    by simp
qed


section \<open>Loading sources and the identifier registry\<close>

lemma foldl_exclude: "foldl exclude src xs = src\<lparr>excludes := excludes src @ xs\<rparr>"
  by (induction xs arbitrary: src) (simp_all add: exclude_def)

lemma Source_init_Inr:
  assumes "Source_init s st = (Inr src, st1)"
  shows "\<exists>p. s = JStr p \<and> path src = trim_trailing_slash p \<and> idn src = basename (path src) \<and>
             excludes src = [] \<and> attrs src = Map.empty \<and>
             unique src = (identifiers st (idn src) = None) \<and>
             identifiers st1 = (if unique src then (identifiers st)(idn src \<mapsto> p) else identifiers st) \<and>
             fs st1 = fs st \<and> stdin st1 = stdin st \<and> trace st1 = trace st \<and> nproc st1 = nproc st"
  using assms
  by (cases s) (auto simp: Source_init_def update_padding_def Let_def split: if_splits)

lemma Source_init_Inl: "Source_init s st = (Inl e, st1) \<Longrightarrow> st1 = st"
  by (cases s) (auto simp: Source_init_def update_padding_def Let_def split: if_splits)

lemma read_item_Inr:
  assumes "read_item item st = (Inr src, st1)"
  shows "\<exists>p. getpath item = Inr (JStr p) \<and> path src = trim_trailing_slash p \<and>
             idn src = basename (path src) \<and> attrs src = Map.empty \<and>
             unique src = (identifiers st (idn src) = None) \<and>
             identifiers st1 = (if unique src then (identifiers st)(idn src \<mapsto> p) else identifiers st) \<and>
             fs st1 = fs st \<and> stdin st1 = stdin st \<and> trace st1 = trace st \<and> nproc st1 = nproc st"
proof -
  from assms obtain v src0 where gp: "getpath item = Inr v" and si: "Source_init v st = (Inr src0, st1)"
    and src: "\<exists>xs. src = foldl exclude src0 xs"
    by (auto simp: read_item_def split: sum.splits prod.splits)
  from Source_init_Inr[OF si] src gp show ?thesis
    by (auto simp: foldl_exclude)
qed


lemma read_items_registry:
  assumes "read_items items st = (Inr srcs, st')"
  shows "(\<forall>j<length srcs. unique (srcs ! j) =
            (identifiers st (idn (srcs ! j)) = None \<and> (\<forall>i<j. idn (srcs ! i) \<noteq> idn (srcs ! j)))) \<and>
         (\<forall>k. (identifiers st' k \<noteq> None) = (identifiers st k \<noteq> None \<or> k \<in> idn ` set srcs)) \<and>
         (\<forall>src\<in>set srcs. idn src = basename (path src)) \<and>
         fs st' = fs st \<and> stdin st' = stdin st \<and> trace st' = trace st \<and> nproc st' = nproc st"
  using assms
proof (induction items arbitrary: st srcs)
  case Nil
  then show ?case by simp
next
  case (Cons item items)
  from Cons.prems obtain src st1 rest where
    ri: "read_item item st = (Inr src, st1)" and
    rs: "read_items items st1 = (Inr rest, st')" and
    srcs: "srcs = src # rest"
    by (auto split: sum.splits prod.splits)
  note ih = Cons.IH[OF rs]
  from read_item_Inr[OF ri] obtain p where
    u: "unique src = (identifiers st (idn src) = None)" and
    reg: "identifiers st1 = (if unique src then (identifiers st)(idn src \<mapsto> p) else identifiers st)" and
    bn: "idn src = basename (path src)" and
    frame: "fs st1 = fs st" "stdin st1 = stdin st" "trace st1 = trace st" "nproc st1 = nproc st"
    by (elim exE conjE)
  have dom1: "\<And>k. (identifiers st1 k = None) = (identifiers st k = None \<and> k \<noteq> idn src)"
    using u reg by auto
  have "unique (srcs ! j) =
          (identifiers st (idn (srcs ! j)) = None \<and> (\<forall>i<j. idn (srcs ! i) \<noteq> idn (srcs ! j)))"
    if "j < length srcs" for j
  proof (cases j)
    case 0
    then show ?thesis using u srcs by simp
  next
    case (Suc j')
    with that srcs have j': "j' < length rest" by simp
    from ih j' have "unique (rest ! j') =
        (identifiers st1 (idn (rest ! j')) = None \<and> (\<forall>i<j'. idn (rest ! i) \<noteq> idn (rest ! j')))"
      by blast
    then show ?thesis using Suc srcs dom1
      by (auto simp: less_Suc_eq_0_disj)
  qed
  moreover have "\<forall>k. (identifiers st' k \<noteq> None) = (identifiers st k \<noteq> None \<or> k \<in> idn ` set srcs)"
    using ih dom1 srcs by auto
  moreover have "\<forall>s\<in>set srcs. idn s = basename (path s)"
    using ih bn srcs by auto
  ultimately show ?case using ih frame by simp
qed


lemma read_items_order:
  "read_items items st = (Inr srcs, st') \<Longrightarrow> list_all2 from_entry items srcs"
proof (induction items arbitrary: st srcs)
  case Nil
  then show ?case by simp
next
  case (Cons item items)
  from Cons.prems obtain src st1 rest where
    ri: "read_item item st = (Inr src, st1)" and
    rs: "read_items items st1 = (Inr rest, st')" and
    srcs: "srcs = src # rest"
    by (auto split: sum.splits prod.splits)
  from read_item_Inr[OF ri] have "from_entry item src" by (auto simp: from_entry_def)
  with Cons.IH[OF rs] srcs show ?case by simp
qed

lemma readconfig_Inr:
  assumes "readconfig ev f st = (Inr (srcs, tgt), st')"
  shows "\<exists>kvs items t. json_load ev f = Parsed (JObj kvs) \<and>
           dict_get kvs ''sources'' = Some (JList items) \<and>
           dict_get kvs ''target'' = Some (JStr t) \<and> tgt = Target_init t \<and>
           read_items items st = (Inr srcs, st')"
  using assms
  by (auto simp: readconfig_def
           split: load_result.splits json.splits option.splits if_splits prod.splits sum.splits)

lemma comma_join_Nil_iff: "comma_join xs = [] \<longleftrightarrow> xs = [] \<or> xs = [[]]"
  by (induction xs rule: comma_join.induct) auto

subsection \<open>The path and the identifier of a Source\<close>



subsection \<open>The readiness reasons\<close>

lemma Source_errs_nul:
  "has_nul (path src) \<Longrightarrow> Source_errs st src = Inl ValueError \<and> Source_err st src = Inl ValueError"
  by (simp add: Source_err_def Source_errs_def Source_readable_def os_access_R_def)

lemma Source_errs_plain:
  assumes "\<not> has_nul (path src)" and "unique src \<or> identifiers st (idn src) \<noteq> None"
  shows "Source_errs st src = Inr (spec_reasons st src)"
  using assms
  by (auto simp: Source_errs_def Source_readable_def os_access_R_def unique_idn_def
                 spec_reasons_def spec_readable_def Let_def)

lemma Source_err_plain:
  assumes "\<not> has_nul (path src)" and "unique src \<or> identifiers st (idn src) \<noteq> None"
  shows "Source_err st src = Inr (comma_join (spec_reasons st src))"
  using Source_errs_plain[OF assms] by (simp add: Source_err_def)

lemma spec_reasons_Nil: "spec_reasons st src = [] \<longleftrightarrow> spec_readable st src \<and> unique src"
  by (simp add: spec_reasons_def)

lemma comma_join_reasons_Nil:
  "comma_join (spec_reasons st src) = [] \<longleftrightarrow> spec_readable st src \<and> unique src"
  by (auto simp: spec_reasons_def comma_join_Nil_iff)

subsection \<open>Duplicate identifiers\<close>






subsection \<open>Independence of the two readiness tests\<close>




section \<open>Source entries\<close>

text \<open>
  C3, as stated, fails: an object entry with \<open>path\<close> and without \<open>exclude\<close> does not give
  an empty exclusion list; \<open>getexclude\<close> raises KeyError and the loading fails.
\<close>

theorem missing_exclude_counterexample:
  "fst (readconfig env_noexclude ''/c.json'' (fresh fs_a [])) = Inl (KeyError ''exclude'')"
  by (simp add: readconfig_def env_noexclude_def env_a_def dict_get_def dict_keys_def read_item_def
                getpath_def getexclude_def Source_init_def update_padding_def Let_def fresh_def)

text \<open>
  C3, amended: a bare string gives a Source with that path, the trailing slash stripped,
  and no exclusion pattern; an object needs both \<open>path\<close> and \<open>exclude\<close>, a missing one
  raises KeyError; a string \<open>exclude\<close> gives the list of that one pattern, a list
  \<open>exclude\<close> gives that list in its order.
\<close>

theorem read_item_entry_shapes:
  "(\<exists>src st1. read_item (JStr p) st = (Inr src, st1) \<and>
               path src = trim_trailing_slash p \<and> excludes src = []) \<and>
   (dict_get kvs0 ''path'' = None \<longrightarrow> fst (read_item (JObj kvs0) st) = Inl (KeyError ''path'')) \<and>
   (dict_get kvs1 ''path'' = Some (JStr p) \<and> dict_get kvs1 ''exclude'' = None \<longrightarrow>
      fst (read_item (JObj kvs1) st) = Inl (KeyError ''exclude'')) \<and>
   (dict_get kvs2 ''path'' = Some (JStr p) \<and> dict_get kvs2 ''exclude'' = Some (JStr e) \<longrightarrow>
      (\<exists>src st1. read_item (JObj kvs2) st = (Inr src, st1) \<and>
                  path src = trim_trailing_slash p \<and> excludes src = [JStr e])) \<and>
   (dict_get kvs3 ''path'' = Some (JStr p) \<and> dict_get kvs3 ''exclude'' = Some (JList es) \<longrightarrow>
      (\<exists>src st1. read_item (JObj kvs3) st = (Inr src, st1) \<and>
                  path src = trim_trailing_slash p \<and> excludes src = es))"
  by (simp add: read_item_def getpath_def getexclude_def makelist_def py_iter_def Source_init_def
                Let_def foldl_exclude exclude_def)

theorem read_item_entry_shapes_witness:
  "fst (read_item (JObj []) (fresh fs_a [])) = Inl (KeyError ''path'') \<and>
   fst (read_item (JObj [(''path'', JStr ''/data/photos/'')]) (fresh fs_a [])) = Inl (KeyError ''exclude'') \<and>
   (\<exists>src st1. read_item (JObj [(''path'', JStr ''/data/photos/''), (''exclude'', JStr ''cache'')]) (fresh fs_a []) = (Inr src, st1) \<and>
       path src = ''/data/photos'' \<and> excludes src = [JStr ''cache'']) \<and>
   (\<exists>src st1. read_item (JObj [(''path'', JStr ''/data/photos/''), (''exclude'', JList [JStr ''b'', JStr ''a''])]) (fresh fs_a []) = (Inr src, st1) \<and>
       path src = ''/data/photos'' \<and> excludes src = [JStr ''b'', JStr ''a''])"
  using read_item_entry_shapes[of "''/data/photos/''" "fresh fs_a []" "[]"
          "[(''path'', JStr ''/data/photos/'')]"
          "[(''path'', JStr ''/data/photos/''), (''exclude'', JStr ''cache'')]" "''cache''"
          "[(''path'', JStr ''/data/photos/''), (''exclude'', JList [JStr ''b'', JStr ''a''])]"
          "[JStr ''b'', JStr ''a'']"]
  by (simp add: dict_get_def trim_trailing_slash_def)


section \<open>The reporting loop and the readiness loop\<close>

lemma prints_append: "prints (xs @ ys) = prints xs @ prints ys"
  by (induction xs rule: prints.induct) simp_all

lemma frame_refl: "frame st st"
  by (simp add: frame_def)

lemma frame_trans: "frame a b \<Longrightarrow> frame b c \<Longrightarrow> frame a c"
  by (simp add: frame_def)

lemma same_source_refl: "same_source s s"
  by (simp add: same_source_def)

lemma Source_err_same: "same_source s s' \<Longrightarrow> frame st st' \<Longrightarrow> Source_err st' s' = Source_err st s"
  by (auto simp: same_source_def frame_def Source_err_def Source_errs_def Source_readable_def
                 os_access_R_def unique_idn_def split: option.splits)

lemma Source_err_frame: "frame st st' \<Longrightarrow> Source_err st' s = Source_err st s"
  by (rule Source_err_same[OF same_source_refl])

lemma spec_reasons_frame: "frame st st' \<Longrightarrow> spec_reasons st' s = spec_reasons st s"
  by (simp add: frame_def spec_reasons_def spec_readable_def)

lemma spec_report_frame: "frame st st' \<Longrightarrow> spec_report ev st' = spec_report ev st"
  by (simp add: fun_eq_iff spec_report_def spec_reasons_frame) (simp add: frame_def)

lemma shown_frame: "frame st st' \<Longrightarrow> shown st' = shown st"
  by (simp add: shown_def fun_eq_iff Source_err_frame)

lemma show_excludes_spec: "show_excludes ev es = spec_pattern_lines ev es"
  by (simp add: show_excludes_def spec_pattern_lines_def tab_def nl_def)

subsection \<open>NUL characters in the arguments of a subprocess\<close>

lemma has_nul_append: "has_nul (a @ b) = (has_nul a \<or> has_nul b)"
  by (auto simp: has_nul_def)

lemma has_nul_Nil: "\<not> has_nul []"
  by (simp add: has_nul_def)

lemma has_nul_Cons: "has_nul (c # s) = (c = CHR 0x00 \<or> has_nul s)"
  by (auto simp: has_nul_def)

lemma flags_Nil: "spec_exclude_flags pre [] = []"
  by (simp add: spec_exclude_flags_def)

lemma flags_Cons:
  "spec_exclude_flags pre (x # es) =
     (case x of JStr p \<Rightarrow> [''--exclude'', pre @ ''/'' @ p] | _ \<Rightarrow> []) @ spec_exclude_flags pre es"
  by (simp add: spec_exclude_flags_def)

lemma has_nul_basename: "has_nul (basename p) \<Longrightarrow> has_nul p"
  by (auto simp: has_nul_def basename_def dest: set_takeWhileD)

lemma plain_pat_str: "list_all plain_pat es \<Longrightarrow> list_all is_str es"
proof (induction es)
  case Nil
  then show ?case by simp
next
  case (Cons a es)
  then show ?case by (cases a) simp_all
qed

lemma exclude_args_Inl: "exclude_args pre es = Inl e \<Longrightarrow> e = TypeError"
  by (induction pre es rule: exclude_args.induct) (auto split: sum.splits)

lemma exclude_args_Inr:
  "exclude_args pre es = Inr xs \<Longrightarrow> list_all is_str es \<and> xs = spec_exclude_flags pre es"
  by (induction pre es arbitrary: xs rule: exclude_args.induct)
     (auto simp: flags_Nil flags_Cons split: sum.splits)

lemma exclude_args_strs:
  "list_all is_str es \<Longrightarrow> exclude_args pre es = Inr (spec_exclude_flags pre es)"
  by (induction pre es rule: exclude_args.induct) (simp_all add: flags_Nil flags_Cons)

lemma flags_plain:
  "list_all is_str es \<Longrightarrow> \<not> list_ex has_nul (spec_exclude_flags pre es) \<Longrightarrow> list_all plain_pat es"
proof (induction es)
  case Nil
  then show ?case by simp
next
  case (Cons a es)
  then show ?case
    by (cases a) (simp_all add: flags_Cons has_nul_append has_nul_Cons has_nul_Nil)
qed

lemma plain_flags:
  "list_all plain_pat es \<Longrightarrow> \<not> has_nul pre \<Longrightarrow> \<not> list_ex has_nul (spec_exclude_flags pre es)"
proof (induction es)
  case Nil
  then show ?case by (simp add: flags_Nil)
next
  case (Cons a es)
  then show ?case
    by (cases a) (simp_all add: flags_Cons has_nul_append has_nul_Cons has_nul_Nil)
qed

subsection \<open>One status report\<close>

lemma check_output_cases:
  assumes "check_output ev a st = (r, st')"
  shows "frame st st' \<and> (trace st' = trace st \<or> trace st' = trace st @ [Subprocess a]) \<and>
         (\<forall>e. r = Inl e \<longrightarrow> e = ValueError \<or> e = OSError \<or> e = CalledProcessError) \<and>
         (\<forall>out. r = Inr out \<longrightarrow> \<not> list_ex has_nul a)"
  using assms
  by (auto simp: check_output_def emit_def frame_def Let_def split: proc_result.splits if_splits)

lemma split_first_Inl: "split_first s = Inl e \<Longrightarrow> e = IndexError"
  by (auto simp: split_first_def Let_def split: if_splits)

lemma split_first_Inr: "split_first s = Inr t \<Longrightarrow> t \<noteq> []"
  by (auto simp: split_first_def Let_def split: if_splits)

lemma Source_size_cases:
  assumes "Source_size ev src st = (r, src', st')" and "attrs src ''__size'' = None"
  shows "frame st st' \<and> same_source src src' \<and> attrs src' ''__size'' = None \<and>
         (\<exists>new. trace st' = trace st @ new \<and> (\<forall>x\<in>set new. quiet x) \<and> prints new = []) \<and>
         (\<forall>e. r = Inl e \<longrightarrow> report_exn e) \<and>
         (\<forall>sz. r = Inr sz \<longrightarrow> sz \<noteq> [] \<and> list_all plain_pat (excludes src))"
proof (cases "exclude_args (path src) (excludes src)")
  case (Inl e)
  with assms exclude_args_Inl[OF Inl] show ?thesis
    by (auto simp: Source_size_def frame_def same_source_def report_exn_def)
next
  case (Inr xs)
  let ?a = "[''du'', ''-sh'', path src] @ xs"
  obtain r1 st1 where co: "check_output ev ?a st = (r1, st1)"
    by (cases "check_output ev ?a st") auto
  note c = check_output_cases[OF co]
  have tr: "\<exists>new. trace st1 = trace st @ new \<and> (\<forall>x\<in>set new. quiet x) \<and> prints new = []"
  proof -
    from c consider "trace st1 = trace st @ []" | "trace st1 = trace st @ [Subprocess ?a]"
      by auto
    then show ?thesis
    proof cases
      case 1
      then show ?thesis by (intro exI[of _ "[]"]) simp
    next
      case 2
      then show ?thesis by (intro exI[of _ "[Subprocess ?a]"]) (simp add: quiet_def)
    qed
  qed
  show ?thesis
  proof (cases r1)
    case (Inl e)
    with assms Inr co c tr show ?thesis
      by (auto simp: Source_size_def same_source_def report_exn_def)
  next
    case out: (Inr tmp)
    show ?thesis
    proof (cases "split_first tmp")
      case (Inl e)
      with assms Inr co c tr out split_first_Inl[OF Inl] show ?thesis
        by (auto simp: Source_size_def same_source_def report_exn_def)
    next
      case tok: (Inr t)
      from c out have "\<not> list_ex has_nul xs" by simp
      with exclude_args_Inr[OF Inr] have pl: "list_all plain_pat (excludes src)"
        using flags_plain by blast
      from assms Inr co out tok have r: "r = Inr t" and
        src': "src' = src\<lparr>attrs := (attrs src)(''_Source__size'' \<mapsto> t)\<rparr>" and st': "st' = st1"
        by (auto simp: Source_size_def)
      from r src' st' c tr pl assms(2) split_first_Inr[OF tok] show ?thesis
        by (auto simp: same_source_def)
    qed
  qed
qed

text \<open>
  What \<open>show\<close> does for a source of a loaded configuration: it raises ValueError for a path
  with a NUL character, or writes the report of the specification, or the sizing of a
  ready source raises and nothing is written.
\<close>

lemma Source_show_cases:
  assumes "Source_show ev True src st = (r, st')" and "attrs src ''__size'' = None"
    and "identifiers st (idn src) \<noteq> None"
  shows "frame st st' \<and>
         (\<exists>new. trace st' = trace st @ new \<and> (\<forall>x\<in>set new. quiet x) \<and>
            (case r of
               Inl e \<Rightarrow> report_exn e \<and> prints new = [] \<and>
                         (has_nul (path src) \<and> e = ValueError \<or>
                          \<not> has_nul (path src) \<and> spec_reasons st src = [])
             | Inr src' \<Rightarrow> \<not> has_nul (path src) \<and> same_source src src' \<and>
                           attrs src' ''__size'' = None \<and>
                           (\<exists>rep. prints new = [rep] \<and> spec_report ev st src rep) \<and>
                           (spec_reasons st src = [] \<longrightarrow> list_all plain_pat (excludes src'))))"
proof (cases "has_nul (path src)")
  case True
  from Source_errs_nul[OF True] assms(1) have "r = Inl ValueError" "st' = st"
    by (simp_all add: Source_show_def)
  with True show ?thesis
    by (auto simp: frame_refl report_exn_def)
next
  case nonul: False
  have er: "Source_err st src = Inr (comma_join (spec_reasons st src))"
    using Source_err_plain[OF nonul] assms(3) by simp
  show ?thesis
  proof (cases "spec_reasons st src = []")
    case False
    then have ne: "comma_join (spec_reasons st src) \<noteq> []"
      using comma_join_reasons_Nil[of st src] spec_reasons_Nil[of st src] by simp
    let ?rep = "yellow (ljust (path src) (padding st)) @ red (comma_join (spec_reasons st src)) @
                nl @ show_excludes ev (excludes src)"
    from assms(1) er ne have r: "r = Inr src" and st': "st' = emit (Print ?rep) st"
      by (simp_all add: Source_show_def Let_def)
    have "spec_report ev st src ?rep"
      using False by (simp add: spec_report_def show_excludes_spec nl_def)
    then have "\<exists>rep. prints [Print ?rep] = [rep] \<and> spec_report ev st src rep"
      by simp
    moreover have "trace st' = trace st @ [Print ?rep]" using st' by (simp add: emit_def)
    moreover have "\<forall>x\<in>set [Print ?rep]. quiet x" by (simp add: quiet_def)
    moreover have "frame st st'" using st' by (simp add: frame_def emit_def)
    ultimately show ?thesis using r nonul assms(2) False
      by (auto simp: same_source_refl intro!: exI[of _ "[Print ?rep]"])
  next
    case True
    then have e0: "Source_err st src = Inr []" using er by simp
    obtain r1 src1 st1 where sz: "Source_size ev src st = (r1, src1, st1)"
      by (cases "Source_size ev src st") auto
    from Source_size_cases[OF sz assms(2)] obtain new where
      f: "frame st st1" and ss: "same_source src src1" and at: "attrs src1 ''__size'' = None" and
      tr: "trace st1 = trace st @ new" and q: "\<forall>x\<in>set new. quiet x" and p: "prints new = []" and
      ex: "\<forall>e. r1 = Inl e \<longrightarrow> report_exn e" and
      ok: "\<forall>sz. r1 = Inr sz \<longrightarrow> sz \<noteq> [] \<and> list_all plain_pat (excludes src)"
      by blast
    show ?thesis
    proof (cases r1)
      case (Inl e)
      with assms(1) e0 sz have "r = Inl e" "st' = st1"
        by (simp_all add: Source_show_def Let_def)
      with Inl f tr q p ex nonul True show ?thesis
        by auto
    next
      case (Inr s)
      let ?rep = "yellow (ljust (path src) (padding st)) @ green ''ok'' @
                  rjust s (padding st1) @ nl @ show_excludes ev (excludes src1)"
      from assms(1) e0 sz Inr have r: "r = Inr src1" and st': "st' = emit (Print ?rep) st1"
        by (simp_all add: Source_show_def Let_def)
      from ok Inr have s: "s \<noteq> []" and pl: "list_all plain_pat (excludes src)" by simp_all
      have pad: "padding st1 = padding st" using f by (simp add: frame_def)
      have exc: "excludes src1 = excludes src" using ss by (simp add: same_source_def)
      have "spec_report ev st src ?rep"
        using True s by (auto simp: spec_report_def show_excludes_spec nl_def pad exc)
      then have "\<exists>rep. prints (new @ [Print ?rep]) = [rep] \<and> spec_report ev st src rep"
        using p by (simp add: prints_append)
      moreover have "trace st' = trace st @ (new @ [Print ?rep])"
        using st' tr by (simp add: emit_def)
      moreover have "\<forall>x\<in>set (new @ [Print ?rep]). quiet x"
        using q by (simp add: quiet_def)
      moreover have "frame st st'" using f st' by (simp add: frame_def emit_def)
      moreover have "list_all plain_pat (excludes src1)" using pl exc by simp
      ultimately show ?thesis using r ss at nonul
        by (auto intro!: exI[of _ "new @ [Print ?rep]"])
    qed
  qed
qed

subsection \<open>The reporting loop\<close>

lemma shownI:
  assumes "\<not> has_nul (path s)" "identifiers st (idn s) \<noteq> None" "same_source s s'"
    "attrs s' ''__size'' = None" "spec_reasons st s = [] \<longrightarrow> list_all plain_pat (excludes s')"
  shows "shown st s s'"
proof -
  have "Source_err st s = Inr (comma_join (spec_reasons st s))"
    using Source_err_plain[OF assms(1)] assms(2) by simp
  then have "Source_err st s = Inr [] \<longrightarrow> spec_reasons st s = []"
    using comma_join_reasons_Nil[of st s] spec_reasons_Nil[of st s] by simp
  with assms show ?thesis by (simp add: shown_def)
qed

lemma show_all_cases:
  assumes "show_all ev srcs st = (r, st')"
    and "\<forall>src\<in>set srcs. attrs src ''__size'' = None \<and> identifiers st (idn src) \<noteq> None"
  shows "frame st st' \<and>
         (\<exists>new. trace st' = trace st @ new \<and> (\<forall>x\<in>set new. quiet x) \<and>
            (case r of
               Inl e \<Rightarrow> report_exn e \<and>
                  (\<exists>k<length srcs.
                     list_all2 (\<lambda>rep src. spec_report ev st src rep) (prints new) (take k srcs) \<and>
                     (has_nul (path (srcs ! k)) \<and> e = ValueError \<or>
                      \<not> has_nul (path (srcs ! k)) \<and> spec_reasons st (srcs ! k) = []))
             | Inr srcs' \<Rightarrow> list_all2 (shown st) srcs srcs' \<and>
                            list_all2 (\<lambda>rep src. spec_report ev st src rep) (prints new) srcs \<and>
                            (\<forall>src\<in>set srcs. \<not> has_nul (path src))))"
  using assms
proof (induction srcs arbitrary: st r st')
  case Nil
  then show ?case by (auto simp: frame_refl)
next
  case (Cons src srcs)
  obtain r1 st1 where sh: "Source_show ev True src st = (r1, st1)"
    by (cases "Source_show ev True src st") auto
  from Cons.prems(2) have at: "attrs src ''__size'' = None" and reg: "identifiers st (idn src) \<noteq> None"
    by auto
  from Source_show_cases[OF sh at reg] obtain new1 where
    f1: "frame st st1" and t1: "trace st1 = trace st @ new1" and q1: "\<forall>x\<in>set new1. quiet x" and
    c1: "case r1 of
           Inl e \<Rightarrow> report_exn e \<and> prints new1 = [] \<and>
                     (has_nul (path src) \<and> e = ValueError \<or>
                      \<not> has_nul (path src) \<and> spec_reasons st src = [])
         | Inr src' \<Rightarrow> \<not> has_nul (path src) \<and> same_source src src' \<and>
                       attrs src' ''__size'' = None \<and>
                       (\<exists>rep. prints new1 = [rep] \<and> spec_report ev st src rep) \<and>
                       (spec_reasons st src = [] \<longrightarrow> list_all plain_pat (excludes src'))"
    by blast
  show ?case
  proof (cases r1)
    case (Inl e)
    with Cons.prems(1) sh have r: "r = Inl e" "st' = st1" by auto
    from c1 Inl have e: "report_exn e" and p: "prints new1 = []" and
      k: "has_nul (path src) \<and> e = ValueError \<or> \<not> has_nul (path src) \<and> spec_reasons st src = []"
      by simp_all
    have "\<exists>k<length (src # srcs).
            list_all2 (\<lambda>rep src. spec_report ev st src rep) (prints new1) (take k (src # srcs)) \<and>
            (has_nul (path ((src # srcs) ! k)) \<and> e = ValueError \<or>
             \<not> has_nul (path ((src # srcs) ! k)) \<and> spec_reasons st ((src # srcs) ! k) = [])"
      using p k by (intro exI[of _ 0]) simp
    with r e f1 t1 q1 show ?thesis by auto
  next
    case (Inr src1)
    obtain r2 st2 where rest: "show_all ev srcs st1 = (r2, st2)"
      by (cases "show_all ev srcs st1") auto
    have pre: "\<forall>s\<in>set srcs. attrs s ''__size'' = None \<and> identifiers st1 (idn s) \<noteq> None"
      using Cons.prems(2) f1 by (simp add: frame_def)
    from Cons.IH[OF rest pre] obtain new2 where
      f2: "frame st1 st2" and t2: "trace st2 = trace st1 @ new2" and q2: "\<forall>x\<in>set new2. quiet x" and
      c2: "case r2 of
             Inl e \<Rightarrow> report_exn e \<and>
                (\<exists>k<length srcs.
                   list_all2 (\<lambda>rep src. spec_report ev st1 src rep) (prints new2) (take k srcs) \<and>
                   (has_nul (path (srcs ! k)) \<and> e = ValueError \<or>
                    \<not> has_nul (path (srcs ! k)) \<and> spec_reasons st1 (srcs ! k) = []))
           | Inr srcs' \<Rightarrow> list_all2 (shown st1) srcs srcs' \<and>
                          list_all2 (\<lambda>rep src. spec_report ev st1 src rep) (prints new2) srcs \<and>
                          (\<forall>src\<in>set srcs. \<not> has_nul (path src))"
      by blast
    from c1 Inr obtain rep where
      n1: "\<not> has_nul (path src)" and
      s1: "same_source src src1" "attrs src1 ''__size'' = None"
          "spec_reasons st src = [] \<longrightarrow> list_all plain_pat (excludes src1)" and
      p1: "prints new1 = [rep]" "spec_report ev st src rep"
      by auto
    have tr: "trace st2 = trace st @ (new1 @ new2)" using t1 t2 by simp
    have q: "\<forall>x\<in>set (new1 @ new2). quiet x" using q1 q2 by auto
    have f: "frame st st2" using f1 f2 by (rule frame_trans)
    show ?thesis
    proof (cases r2)
      case (Inl e)
      with Cons.prems(1) sh Inr rest have r: "r = Inl e" "st' = st2" by auto
      from c2 Inl obtain k where e: "report_exn e" and k: "k < length srcs" and
        reps: "list_all2 (\<lambda>rep src. spec_report ev st1 src rep) (prints new2) (take k srcs)" and
        at_k: "has_nul (path (srcs ! k)) \<and> e = ValueError \<or>
               \<not> has_nul (path (srcs ! k)) \<and> spec_reasons st1 (srcs ! k) = []"
        by auto
      have "\<exists>k<length (src # srcs).
              list_all2 (\<lambda>rep src. spec_report ev st src rep) (prints (new1 @ new2))
                        (take k (src # srcs)) \<and>
              (has_nul (path ((src # srcs) ! k)) \<and> e = ValueError \<or>
               \<not> has_nul (path ((src # srcs) ! k)) \<and> spec_reasons st ((src # srcs) ! k) = [])"
        using k reps at_k p1 spec_report_frame[OF f1] spec_reasons_frame[OF f1]
        by (intro exI[of _ "Suc k"]) (simp add: prints_append)
      with r e tr q f show ?thesis
        by (auto intro!: exI[of _ "new1 @ new2"])
    next
      case r2: (Inr srcs1)
      with Cons.prems(1) sh Inr rest have r: "r = Inr (src1 # srcs1)" "st' = st2" by auto
      have "shown st src src1" using shownI[OF n1 reg s1] .
      moreover have "list_all2 (shown st) srcs srcs1"
        using c2 r2 shown_frame[OF f1] by simp
      moreover have "list_all2 (\<lambda>rep src. spec_report ev st src rep) (prints (new1 @ new2)) (src # srcs)"
        using c2 r2 p1 spec_report_frame[OF f1] by (simp add: prints_append)
      moreover have "\<forall>s\<in>set (src # srcs). \<not> has_nul (path s)"
        using c2 r2 n1 by simp
      ultimately show ?thesis using r tr q f
        by (auto intro!: exI[of _ "new1 @ new2"])
    qed
  qed
qed

subsection \<open>The readiness loop\<close>


lemma Source_err_Inl: "Source_err st src = Inl e \<Longrightarrow> e = ValueError \<or> (\<exists>k. e = KeyError k)"
  by (auto simp: Source_err_def Source_errs_def Source_readable_def os_access_R_def Let_def
           split: sum.splits option.splits if_splits)

lemma check_all_cases:
  assumes "check_all srcs st = (r, st')"
  shows "case r of
           Inr u \<Rightarrow> st' = st \<and> (\<forall>src\<in>set srcs. Source_err st src = Inr [])
         | Inl e \<Rightarrow> (e = SystemExit 1 \<or> e = ValueError \<or> (\<exists>k. e = KeyError k))"
  using assms
proof (induction srcs)
  case Nil
  then show ?case by auto
next
  case (Cons src srcs)
  show ?case
  proof (cases "Source_err st src")
    case (Inl e)
    with Cons.prems Source_err_Inl[OF Inl] show ?thesis by auto
  next
    case (Inr m)
    with Cons show ?thesis by (cases "m = []") (auto simp: err_def split: sum.splits)
  qed
qed

lemma Source_err_ready: "Source_err st src = Inr m \<Longrightarrow> \<not> has_nul (path src)"
  by (auto simp: Source_err_def Source_errs_def Source_readable_def os_access_R_def
           split: sum.splits if_splits)

subsection \<open>The sources of a loaded configuration\<close>

lemma read_items_attrs:
  "read_items items st = (Inr srcs, st') \<Longrightarrow> \<forall>src\<in>set srcs. attrs src = Map.empty"
proof (induction items arbitrary: st srcs)
  case Nil
  then show ?case by simp
next
  case (Cons item items)
  from Cons.prems obtain src st1 rest where
    ri: "read_item item st = (Inr src, st1)" and
    rs: "read_items items st1 = (Inr rest, st')" and
    srcs: "srcs = src # rest"
    by (auto split: sum.splits prod.splits)
  from read_item_Inr[OF ri] Cons.IH[OF rs] srcs show ?case by auto
qed

lemma readconfig_sources:
  assumes "readconfig ev f st = (Inr (srcs, tgt), st1)"
  shows "trace st1 = trace st \<and> fs st1 = fs st \<and> stdin st1 = stdin st \<and> nproc st1 = nproc st \<and>
         (\<forall>src\<in>set srcs. attrs src ''__size'' = None \<and> identifiers st1 (idn src) \<noteq> None \<and>
                          idn src = basename (path src))"
proof -
  from readconfig_Inr[OF assms] obtain items where ri: "read_items items st = (Inr srcs, st1)"
    by blast
  from read_items_registry[OF ri] have "\<forall>src\<in>set srcs. identifiers st1 (idn src) \<noteq> None"
    by auto
  with read_items_registry[OF ri] read_items_attrs[OF ri] show ?thesis by simp
qed

subsection \<open>Where the sizing tool works\<close>



section \<open>A source that fails its readiness check\<close>









section \<open>The sync phase\<close>

lemma rsync_argv_plain:
  assumes "list_all plain_pat (excludes src)" "\<not> has_nul (path src)" "\<not> has_nul (idn src)"
    "\<not> has_nul (tpath tgt)"
  shows "\<not> list_ex has_nul (spec_rsync_argv tgt src)"
  using plain_flags[OF assms(1,3)] assms(2,4)
  by (simp add: spec_rsync_argv_def has_nul_Cons has_nul_Nil)

lemma rsync_ok:
  assumes "list_all plain_pat (excludes src)" "\<not> has_nul (path src)" "\<not> has_nul (idn src)"
    "\<not> has_nul (tpath tgt)"
    and "run_proc ev (nproc st) (spec_rsync_argv tgt src) \<noteq> NotLaunched"
  shows "\<exists>st'. rsync ev tgt src st = (Inr (), st') \<and>
           trace st' = trace st @ [Print (rsync_line tgt src @ nl), Subprocess (spec_rsync_argv tgt src)]"
proof -
  have xs: "exclude_args (idn src) (excludes src) = Inr (spec_exclude_flags (idn src) (excludes src))"
    using exclude_args_strs[OF plain_pat_str[OF assms(1)]] .
  note nn = rsync_argv_plain[OF assms(1-4)]
  from assms(5) obtain c out where
    rp: "run_proc ev (nproc st) (spec_rsync_argv tgt src) = Exited c out"
    by (cases "run_proc ev (nproc st) (spec_rsync_argv tgt src)") auto
  have "subprocess_call ev (spec_rsync_argv tgt src) (print (rsync_line tgt src) st) =
          (Inr c, emit (Subprocess (spec_rsync_argv tgt src))
                    ((print (rsync_line tgt src) st)\<lparr>nproc := Suc (nproc st)\<rparr>))"
    using nn rp unfolding subprocess_call_def by (simp add: Let_def print_def emit_def)
  then show ?thesis
    using xs by (simp add: rsync_def print_def emit_def spec_rsync_argv_def Let_def)
qed

lemma rsync_all_ok:
  assumes launch: "\<forall>k a. run_proc ev k a \<noteq> NotLaunched"
    and tp: "\<not> has_nul (tpath tgt)"
    and "\<forall>src\<in>set srcs. list_all plain_pat (excludes src) \<and> \<not> has_nul (path src) \<and>
                          \<not> has_nul (idn src)"
  shows "\<exists>st'. rsync_all ev tgt srcs st = (Inr (), st') \<and>
           trace st' = trace st @
             concat (map (\<lambda>src. [Print (rsync_line tgt src @ nl), Subprocess (spec_rsync_argv tgt src)]) srcs)"
  using assms(3)
proof (induction srcs arbitrary: st)
  case Nil
  then show ?case by simp
next
  case (Cons src srcs)
  from Cons.prems have s: "list_all plain_pat (excludes src)" "\<not> has_nul (path src)"
    "\<not> has_nul (idn src)"
    by simp_all
  from launch have l: "run_proc ev (nproc st) (spec_rsync_argv tgt src) \<noteq> NotLaunched" by blast
  from rsync_ok[OF s tp l] obtain st1 where
    r: "rsync ev tgt src st = (Inr (), st1)" and
    t: "trace st1 = trace st @ [Print (rsync_line tgt src @ nl), Subprocess (spec_rsync_argv tgt src)]"
    by blast
  from Cons.prems have "\<forall>s\<in>set srcs. list_all plain_pat (excludes s) \<and> \<not> has_nul (path s) \<and>
                                       \<not> has_nul (idn s)"
    by simp
  from Cons.IH[OF this, of st1] r t show ?case by auto
qed

lemma main_to_confirm_Inr:
  assumes "main_to_confirm ev ar st = (Inr (srcs, tgt), st7)"
  shows "\<exists>srcs0 st1 st2 st3 st4.
           readconfig ev (config ar) st = (Inr (srcs0, tgt), st1) \<and>
           show_all ev srcs0 st1 = (Inr srcs, st2) \<and>
           check_all srcs st2 = (Inr (), st3) \<and>
           Target_writable st4 tgt = Inr True"
  using assms
  by (auto simp: main_to_confirm_def err_def split: prod.splits sum.splits if_splits)

lemma writable_plain: "Target_writable st tgt = Inr w \<Longrightarrow> \<not> has_nul (tpath tgt)"
  by (auto simp: Target_writable_def os_access_W_def split: if_splits)

lemma shown_ready_plain:
  "list_all2 (shown st1) srcs0 srcs \<Longrightarrow> frame st1 st2 \<Longrightarrow>
   \<forall>s\<in>set srcs. Source_err st2 s = Inr [] \<Longrightarrow> \<forall>s\<in>set srcs. list_all plain_pat (excludes s)"
  by (induction rule: list_all2_induct) (auto simp: shown_def Source_err_same)

lemma shown_idn:
  "list_all2 (shown st1) srcs0 srcs \<Longrightarrow> \<forall>s\<in>set srcs0. idn s = basename (path s) \<Longrightarrow>
   \<forall>s\<in>set srcs. idn s = basename (path s)"
  by (induction rule: list_all2_induct) (auto simp: shown_def same_source_def)

lemma from_entry_shown:
  "list_all2 from_entry items srcs0 \<Longrightarrow> list_all2 (shown st1) srcs0 srcs \<Longrightarrow>
     list_all2 from_entry items srcs"
proof (induction arbitrary: srcs rule: list_all2_induct)
  case Nil
  then show ?case by simp
next
  case (Cons item items s0 srcs0)
  from Cons.prems obtain s rest where srcs: "srcs = s # rest" and sh: "shown st1 s0 s"
    and r: "list_all2 (shown st1) srcs0 rest"
    by (auto simp: list_all2_Cons1)
  from Cons.hyps(1) sh have "from_entry item s"
    by (auto simp: from_entry_def shown_def same_source_def)
  with Cons.IH[OF r] srcs show ?case by simp
qed

text \<open>
  C6: once \<open>main\<close> has passed the final confirmation, and however the mirroring tool exits
  as long as it can be started, the run completes and its events from there on are, for each
  source in the order of the configuration entries, the line announcing the sync and one
  invocation of the tool with the argument vector of the specification; all patterns are
  strings at that point.
\<close>

theorem sync_phase_invocations:
  assumes reach: "main_to_confirm ev ar st = (Inr (srcs, tgt), st1)"
    and launch: "\<forall>k a. run_proc ev k a \<noteq> NotLaunched"
  shows "\<exists>st' kvs items.
           main ev ar st = (Inr (), st') \<and>
           trace st' = trace st1 @
             concat (map (\<lambda>src. [Print (rsync_line tgt src @ nl), Subprocess (spec_rsync_argv tgt src)]) srcs) @
             [Print (purple ''All done!'' @ nl)] \<and>
           (\<forall>src\<in>set srcs. list_all is_str (excludes src)) \<and>
           json_load ev (config ar) = Parsed (JObj kvs) \<and>
           dict_get kvs ''sources'' = Some (JList items) \<and>
           list_all2 from_entry items srcs"
proof -
  from main_to_confirm_Inr[OF reach] obtain srcs0 s1 s2 s3 s4 where
    rc: "readconfig ev (config ar) st = (Inr (srcs0, tgt), s1)" and
    sa: "show_all ev srcs0 s1 = (Inr srcs, s2)" and
    ca: "check_all srcs s2 = (Inr (), s3)" and
    wr: "Target_writable s4 tgt = Inr True"
    by blast
  note rs = readconfig_sources[OF rc]
  then have pre: "\<forall>src\<in>set srcs0. attrs src ''__size'' = None \<and> identifiers s1 (idn src) \<noteq> None"
    by blast
  from rs have bn0: "\<forall>src\<in>set srcs0. idn src = basename (path src)" by blast
  from show_all_cases[OF sa pre] have f: "frame s1 s2" and sh: "list_all2 (shown s1) srcs0 srcs"
    by auto
  from check_all_cases[OF ca] have ready: "\<forall>s\<in>set srcs. Source_err s2 s = Inr []"
    by simp
  from shown_ready_plain[OF sh f ready] have plain: "\<forall>s\<in>set srcs. list_all plain_pat (excludes s)" .
  then have strs: "\<forall>s\<in>set srcs. list_all is_str (excludes s)"
    using plain_pat_str by blast
  have np: "\<forall>s\<in>set srcs. \<not> has_nul (path s)"
    using ready Source_err_ready by blast
  have ni: "\<forall>s\<in>set srcs. \<not> has_nul (idn s)"
  proof
    fix s assume s: "s \<in> set srcs"
    with shown_idn[OF sh bn0] have "idn s = basename (path s)" by blast
    with np s has_nul_basename[of "path s"] show "\<not> has_nul (idn s)" by auto
  qed
  have all: "\<forall>src\<in>set srcs. list_all plain_pat (excludes src) \<and> \<not> has_nul (path src) \<and>
                             \<not> has_nul (idn src)"
    using plain np ni by blast
  from readconfig_Inr[OF rc] obtain kvs items where
    js: "json_load ev (config ar) = Parsed (JObj kvs)" "dict_get kvs ''sources'' = Some (JList items)" and
    ri: "read_items items st = (Inr srcs0, s1)"
    by blast
  from from_entry_shown[OF read_items_order[OF ri] sh] have ord: "list_all2 from_entry items srcs" .
  from rsync_all_ok[OF launch writable_plain[OF wr] all, of st1] obtain st2 where
    ra: "rsync_all ev tgt srcs st1 = (Inr (), st2)" and
    t: "trace st2 = trace st1 @
          concat (map (\<lambda>src. [Print (rsync_line tgt src @ nl), Subprocess (spec_rsync_argv tgt src)]) srcs)"
    by blast
  have m: "main ev ar st = (Inr (), print (purple ''All done!'') st2)"
    using reach ra by (simp add: main_def)
  have "trace (print (purple ''All done!'') st2) = trace st1 @
          concat (map (\<lambda>src. [Print (rsync_line tgt src @ nl), Subprocess (spec_rsync_argv tgt src)]) srcs) @
          [Print (purple ''All done!'' @ nl)]"
    using t by (simp add: print_def emit_def)
  with m strs js ord show ?thesis by blast
qed

lemma reach_sync: "\<not> isl (fst (main_to_confirm env_sync args_sync (fresh fs_sync [''y''])))"
  by code_simp

lemma rsyncs_sync:
  "filter is_rsync (trace (snd (main env_sync args_sync (fresh fs_sync [''y''])))) =
     [Subprocess [''rsync'', ''-i'', ''--info=progress2'', ''-a'', ''--links'', ''--delete'',
                  ''--delete-excluded'', ''/data/photos'', ''/backup''],
      Subprocess [''rsync'', ''-i'', ''--info=progress2'', ''-a'', ''--links'', ''--delete'',
                  ''--delete-excluded'', ''--exclude'', ''docs/tmp'', ''--exclude'', ''docs/cache'',
                  ''/data/docs'', ''/backup'']]"
  by code_simp

theorem sync_phase_witness:
  "\<not> isl (fst (main_to_confirm env_sync args_sync (fresh fs_sync [''y'']))) \<and>
   (\<forall>k a. run_proc env_sync k a \<noteq> NotLaunched) \<and>
   fst (main env_sync args_sync (fresh fs_sync [''y''])) = Inr () \<and>
   filter is_rsync (trace (snd (main env_sync args_sync (fresh fs_sync [''y''])))) =
     [Subprocess [''rsync'', ''-i'', ''--info=progress2'', ''-a'', ''--links'', ''--delete'',
                  ''--delete-excluded'', ''/data/photos'', ''/backup''],
      Subprocess [''rsync'', ''-i'', ''--info=progress2'', ''-a'', ''--links'', ''--delete'',
                  ''--delete-excluded'', ''--exclude'', ''docs/tmp'', ''--exclude'', ''docs/cache'',
                  ''/data/docs'', ''/backup'']]"
proof -
  have launch: "\<forall>k a. run_proc env_sync k a \<noteq> NotLaunched"
    by (simp add: env_sync_def)
  obtain srcs tgt st1 where
    reach: "main_to_confirm env_sync args_sync (fresh fs_sync [''y'']) = (Inr (srcs, tgt), st1)"
    using reach_sync
    by (cases "main_to_confirm env_sync args_sync (fresh fs_sync [''y''])";
        cases "fst (main_to_confirm env_sync args_sync (fresh fs_sync [''y'']))") auto
  from sync_phase_invocations[OF reach launch]
  have "fst (main env_sync args_sync (fresh fs_sync [''y''])) = Inr ()"
    by auto
  with reach_sync launch rsyncs_sync show ?thesis by simp
qed


section \<open>The two assertions of the orchestrator\<close>

lemma read_item_error: "read_item item st = (Inl e, st') \<Longrightarrow> \<not> is_assertion e"
  by (auto simp: read_item_def getpath_def getexclude_def py_iter_def Source_init_def Let_def
           split: sum.splits prod.splits json.splits option.splits if_splits)

lemma read_items_error: "read_items items st = (Inl e, st') \<Longrightarrow> \<not> is_assertion e"
proof (induction items arbitrary: st)
  case Nil
  then show ?case by simp
next
  case (Cons item items)
  then show ?case
    by (auto split: sum.splits prod.splits dest: read_item_error)
qed

lemma readconfig_error:
  "readconfig ev f st = (Inl e, st') \<Longrightarrow> is_assertion e \<Longrightarrow> e = AssertionError 160"
  by (auto simp: readconfig_def
           split: load_result.splits json.splits option.splits if_splits prod.splits sum.splits
           dest: read_items_error)

lemma confirm_error:
  "confirm s False st = (Inl e, st') \<Longrightarrow> e = EOFError \<or> e = SystemExit 3"
  by (auto simp: confirm_def Let_def split: list.splits if_splits)

lemma confirm_frame:
  "confirm s False st = (Inr u, st') \<Longrightarrow> fs st' = fs st"
  by (auto simp: confirm_def Let_def emit_def split: list.splits if_splits)

text \<open>The assertion of \<open>create\<close> holds wherever the target does not exist.\<close>

lemma create_error:
  "\<not> Target_exists st tgt \<Longrightarrow> create ev tgt st = (Inl e, st') \<Longrightarrow> \<not> is_assertion e"
  by (auto simp: create_def err_def Let_def split: prod.splits sum.splits option.splits if_splits
           dest: confirm_error)

lemma create_makes_target:
  "create ev tgt st = (Inr u, st') \<Longrightarrow> Target_exists st' tgt"
  by (auto simp: create_def err_def Let_def Target_exists_def os_path_exists_def
           split: prod.splits sum.splits option.splits if_splits)

text \<open>A writable target exists: the assertion of \<open>main\<close> holds after the writability test.\<close>

lemma writable_sanity: "Target_writable st tgt = Inr True \<Longrightarrow> sanity st tgt = Inr True"
  by (auto simp: sanity_def Target_writable_def Target_exists_def os_access_W_def os_path_exists_def
           split: option.splits if_splits)

lemma writable_error: "Target_writable st tgt = Inl e \<Longrightarrow> \<not> is_assertion e"
  by (auto simp: Target_writable_def os_access_W_def split: if_splits)

lemma showSource_error: "showSource ev tgt src st = (Inl e, st') \<Longrightarrow> \<not> is_assertion e"
  by (auto simp: showSource_def Let_def split_first_def check_output_def
           split: prod.splits sum.splits if_splits proc_result.splits)

lemma showSource_all_error: "showSource_all ev tgt srcs st = (Inl e, st') \<Longrightarrow> \<not> is_assertion e"
proof (induction srcs arbitrary: st)
  case Nil
  then show ?case by simp
next
  case (Cons src srcs)
  then show ?case
    by (auto split: sum.splits prod.splits dest: showSource_error)
qed

lemma rsync_error: "rsync ev tgt src st = (Inl e, st') \<Longrightarrow> \<not> is_assertion e"
  by (auto simp: rsync_def Let_def subprocess_call_def
           split: prod.splits sum.splits proc_result.splits if_splits dest: exclude_args_Inl)

lemma rsync_all_error: "rsync_all ev tgt srcs st = (Inl e, st') \<Longrightarrow> \<not> is_assertion e"
proof (induction srcs arbitrary: st)
  case Nil
  then show ?case by simp
next
  case (Cons src srcs)
  then show ?case
    by (auto split: sum.splits prod.splits dest: rsync_error)
qed

lemma show_all_error:
  assumes "readconfig ev f st = (Inr (srcs, tgt), st1)" and "show_all ev srcs st1 = (Inl e, st2)"
  shows "\<not> is_assertion e"
proof -
  from readconfig_sources[OF assms(1)]
  have "\<forall>src\<in>set srcs. attrs src ''__size'' = None \<and> identifiers st1 (idn src) \<noteq> None"
    by blast
  from show_all_cases[OF assms(2) this] have "report_exn e" by auto
  then show ?thesis by (auto simp: report_exn_def)
qed

lemma check_all_error: "check_all srcs st = (Inl e, st') \<Longrightarrow> \<not> is_assertion e"
  using check_all_cases[of srcs st "Inl e" st'] by auto

lemma main_to_confirm_error:
  assumes "main_to_confirm ev ar st = (Inl e, st')" and "is_assertion e"
  shows "e = AssertionError 160"
proof (cases "readconfig ev (config ar) st")
  case (Pair r1 st1)
  show ?thesis
  proof (cases r1)
    case (Inl e1)
    with assms Pair show ?thesis
      by (auto simp: main_to_confirm_def dest: readconfig_error)
  next
    case (Inr p)
    obtain srcs0 tgt where p: "p = (srcs0, tgt)" by (cases p)
    note rc = Pair[unfolded Inr p]
    obtain r2 st2 where sa: "show_all ev srcs0 st1 = (r2, st2)" by (cases "show_all ev srcs0 st1")
    show ?thesis
    proof (cases r2)
      case (Inl e2)
      with assms rc sa show_all_error[OF rc] show ?thesis
        by (auto simp: main_to_confirm_def)
    next
      case srcs: (Inr srcs)
      obtain r3 st3 where ca: "check_all srcs st2 = (r3, st3)" by (cases "check_all srcs st2")
      show ?thesis
      proof (cases r3)
        case (Inl e3)
        with assms rc sa srcs ca check_all_error show ?thesis
          by (auto simp: main_to_confirm_def)
      next
        case ok3: (Inr u3)
        obtain r4 st4 where
          cr: "(if \<not> Target_exists st3 tgt then create ev tgt st3 else (Inr (), st3)) = (r4, st4)"
          by (cases "if \<not> Target_exists st3 tgt then create ev tgt st3 else (Inr (), st3)")
        show ?thesis
        proof (cases r4)
          case (Inl e4)
          with cr have "\<not> is_assertion e4"
            by (auto split: if_splits dest: create_error)
          with assms rc sa srcs ca ok3 cr Inl show ?thesis
            by (auto simp: main_to_confirm_def)
        next
          case ok4: (Inr u4)
          show ?thesis
          proof (cases "Target_writable st4 tgt")
            case (Inl e5)
            with assms rc sa srcs ca ok3 cr ok4 writable_error[OF Inl] show ?thesis
              by (auto simp: main_to_confirm_def)
          next
            case (Inr w)
            show ?thesis
            proof (cases w)
              case False
              with assms rc sa srcs ca ok3 cr ok4 Inr show ?thesis
                by (auto simp: main_to_confirm_def err_def)
            next
              case True
              with Inr have wr: "Target_writable st4 tgt = Inr True" by simp
              note san = writable_sanity[OF wr]
              obtain r6 st6 where
                ss: "showSource_all ev tgt srcs (print (nl @ ''Locations to be synced:'') st4) = (r6, st6)"
                by (cases "showSource_all ev tgt srcs (print (nl @ ''Locations to be synced:'') st4)")
              show ?thesis
              proof (cases r6)
                case (Inl e6)
                with assms rc sa srcs ca ok3 cr ok4 wr san ss showSource_all_error show ?thesis
                  by (auto simp: main_to_confirm_def)
              next
                case ok6: (Inr u6)
                with assms rc sa srcs ca ok3 cr ok4 wr san ss show ?thesis
                  by (auto simp: main_to_confirm_def split: prod.splits sum.splits dest: confirm_error)
              qed
            qed
          qed
        qed
      qed
    qed
  qed
qed

text \<open>
  C10: no run of \<open>main\<close> ends with the assertion of \<open>Target.create\<close> (line 108) or with the
  assertion of \<open>main\<close> (line 206) failing.
\<close>

theorem assertions_never_fail:
  "fst (main ev ar st) \<noteq> Inl (AssertionError 108) \<and> fst (main ev ar st) \<noteq> Inl (AssertionError 206)"
proof -
  have "e = AssertionError 160" if "main ev ar st = (Inl e, st')" "is_assertion e" for e st'
    using that
    by (auto simp: main_def split: prod.splits sum.splits
             dest: main_to_confirm_error rsync_all_error)
  then have "n = 160" if "fst (main ev ar st) = Inl (AssertionError n)" for n
    using that by (cases "main ev ar st") fastforce
  then show ?thesis by fastforce
qed

end
